theory Spec2Isabelle
  imports Complex_Main
begin

section \<open>Python values\<close>

text \<open>
  A Python \<open>str\<close> is a sequence of Unicode code points, so it is a list of naturals
  here: the module's literals are Cyrillic, and \<open>len\<close>, \<open>in\<close>, \<open>replace\<close> and
  \<open>split\<close> count code points. \<open>cp\<close> writes an ASCII literal.
\<close>

type_synonym pystr = "nat list"

definition cp :: "string \<Rightarrow> pystr" where
  "cp s = map of_char s"

text \<open>
  The exceptions the module can meet. All of them are subclasses of \<open>Exception\<close>, which
  is what \<open>except Exception\<close> and the bare \<open>except:\<close> of the source catch.
\<close>

datatype exn = ValueError | TypeError | AttributeError | KeyError | OverflowError
  | OSError | RequestException

text \<open>What \<open>json.loads\<close> and \<open>Response.json()\<close> build; a dict is its list of items.\<close>

datatype json = JNull | JBool bool | JInt int | JFloat real | JStr pystr
  | JArr "json list" | JObj "(pystr \<times> json) list"

subsection \<open>The \<open>str\<close> methods the module calls\<close>

definition py_isspace :: "nat \<Rightarrow> bool" where
  "py_isspace c \<longleftrightarrow> (9 \<le> c \<and> c \<le> 13) \<or> (28 \<le> c \<and> c \<le> 32) \<or> c = 133 \<or> c = 160
     \<or> c = 5760 \<or> (8192 \<le> c \<and> c \<le> 8202) \<or> c = 8232 \<or> c = 8233 \<or> c = 8239
     \<or> c = 8287 \<or> c = 12288"

definition strip :: "pystr \<Rightarrow> pystr" where
  "strip s = rev (dropWhile py_isspace (rev (dropWhile py_isspace s)))"

fun startswith :: "pystr \<Rightarrow> pystr \<Rightarrow> bool" where
  "startswith s [] = True"
| "startswith [] (p # ps) = False"
| "startswith (c # cs) (p # ps) = (c = p \<and> startswith cs ps)"

text \<open>\<open>needle in hay\<close> for two strings.\<close>

fun str_in :: "pystr \<Rightarrow> pystr \<Rightarrow> bool" where
  "str_in needle [] = (needle = [])"
| "str_in needle (c # cs) = (startswith (c # cs) needle \<or> str_in needle cs)"

text \<open>
  \<open>s.replace(old, new)\<close>: every non-overlapping occurrence, from the left. The source
  only passes a non-empty \<open>old\<close>; for an empty one Python puts \<open>new\<close> around every
  character.
\<close>

function replace :: "pystr \<Rightarrow> pystr \<Rightarrow> pystr \<Rightarrow> pystr" where
  "replace old new [] = (if old = [] then new else [])"
| "replace old new (c # cs) =
     (if old = [] then new @ c # replace old new cs
      else if startswith (c # cs) old then new @ replace old new (drop (length old) (c # cs))
      else c # replace old new cs)"
  by pat_completeness auto
termination
  apply (relation "measure (\<lambda>(old, new, s). length s)")
    apply (auto simp: less_Suc_eq_le)
  apply (case_tac old)
   apply auto
  done

text \<open>\<open>s.split(sep)\<close> for a separator of one character, as in \<open>t.split(":")\<close>.\<close>

fun split :: "nat \<Rightarrow> pystr \<Rightarrow> pystr list" where
  "split sep [] = [[]]"
| "split sep (c # cs) =
     (if c = sep then [] # split sep cs
      else (case split sep cs of [] \<Rightarrow> [[c]] | p # ps \<Rightarrow> (c # p) # ps))"

text \<open>\<open>xs[:n]\<close>: a negative \<open>n\<close> counts from the end.\<close>

definition slice_to :: "'a list \<Rightarrow> int \<Rightarrow> 'a list" where
  "slice_to xs n = (if 0 \<le> n then take (nat n) xs else take (nat (int (length xs) + n)) xs)"

text \<open>\<open>min(xs)\<close> of a non-empty list (the source guards the call with \<open>if batch_timestamps\<close>).\<close>

fun py_min :: "real list \<Rightarrow> real" where
  "py_min [] = 0"
| "py_min (x # xs) = fold min xs x"

subsection \<open>\<open>datetime\<close>\<close>

record datetime =
  dt_year :: int
  dt_month :: int
  dt_day :: int
  dt_hour :: int
  dt_minute :: int
  dt_second :: int
  dt_microsecond :: int

definition is_leap :: "int \<Rightarrow> bool" where
  "is_leap y \<longleftrightarrow> y mod 4 = 0 \<and> (y mod 100 \<noteq> 0 \<or> y mod 400 = 0)"

definition days_in_month :: "int \<Rightarrow> int \<Rightarrow> int" where
  "days_in_month y m =
     (if m = 2 then (if is_leap y then 29 else 28)
      else if m = 4 \<or> m = 6 \<or> m = 9 \<or> m = 11 then 30 else 31)"

text \<open>The range checks of the \<open>datetime\<close> constructor, which \<open>replace\<close> runs again.\<close>

definition valid_datetime :: "datetime \<Rightarrow> bool" where
  "valid_datetime d \<longleftrightarrow> 1 \<le> dt_year d \<and> dt_year d \<le> 9999 \<and> 1 \<le> dt_month d \<and> dt_month d \<le> 12
     \<and> 1 \<le> dt_day d \<and> dt_day d \<le> days_in_month (dt_year d) (dt_month d)
     \<and> 0 \<le> dt_hour d \<and> dt_hour d \<le> 23 \<and> 0 \<le> dt_minute d \<and> dt_minute d \<le> 59
     \<and> 0 \<le> dt_second d \<and> dt_second d \<le> 59
     \<and> 0 \<le> dt_microsecond d \<and> dt_microsecond d \<le> 999999"

definition checked :: "datetime \<Rightarrow> exn + datetime" where
  "checked d = (if valid_datetime d then Inr d else Inl ValueError)"

section \<open>The module's data\<close>

text \<open>\<open>class Settings(BaseModel)\<close>; \<open>sent_order_ids\<close> is a list, in insertion order.\<close>

record settings =
  order_age_hours :: int
  max_orders_in_ticket :: int
  sent_order_ids :: "pystr list"

text \<open>An order's date is a \<open>datetime\<close> or a string of the site.\<close>

datatype date_obj = DateTime datetime | DateStr pystr

text \<open>What the scanner reads of an \<open>OrderShortcut\<close>: \<open>str(order_data.id)\<close> and the date.\<close>

record order_data =
  order_id :: pystr
  order_date :: date_obj

datatype order_status = PAID | CLOSED | REFUNDED

text \<open>
  The value of \<open>acc.get_sales\<close>: a falsy value, or the tuple whose first component is the
  cursor of the next page and whose second is the page.
\<close>

type_synonym sales_result = "(pystr option \<times> order_data list) option"

record account =
  golden_key :: pystr
  user_agent :: pystr
  requests_timeout :: int
  username :: pystr

text \<open>A call of \<open>requests.get\<close>; \<open>allow_redirects = None\<close> when the argument is not passed.\<close>

record http_request =
  req_method :: pystr
  req_url :: pystr
  req_headers :: "(pystr \<times> json) list"
  req_data :: "(pystr \<times> json) list"
  req_timeout :: int
  allow_redirects :: "bool option"

record response =
  status_code :: int
  location :: "pystr option"
  cookie_phpsessid :: "pystr option"
  content :: pystr

text \<open>
  The texts the module shows, by what they say and the values they carry; every text
  built by \<open>_main_text\<close> is the menu with a status line.
\<close>

datatype ui_text =
    MainMenu
  | Scanning
  | ScanningAlert
  | NoOldOrders
  | TicketSent nat "pystr list" int
  | NoneAvailable
  | AllFailed nat
  | SentAlert nat
  | UpdateError
  | InvalidHours
  | InvalidCount

text \<open>The calls on the Telegram bot and on the Cardinal's Telegram layer.\<close>

datatype tg_call =
    AnswerCallbackQuery ui_text
  | EditMessageText ui_text
  | SendMessage ui_text
  | ClearState

text \<open>
  The settings file: absent, a complete dump of a \<open>Settings\<close> value, or what a write that
  failed midway leaves. \<open>open(..., "w")\<close> can fail before it truncates the file, and
  \<open>json.dump\<close> after.
\<close>

datatype settings_file = NoFile | Dump settings | Partial

datatype write_outcome = Written | OpenFailed | WriteFailed

section \<open>The environment\<close>

text \<open>
  Everything outside the module: the clock, the marketplace account, the support portal,
  Telegram and the disk are operations on a state \<open>'w\<close> that the module cannot see
  into, and the library functions whose code is not the module's are parameters. A
  theorem holds for every environment. \<open>datetime.timestamp()\<close> is one of them: it
  raises \<open>OverflowError\<close> or \<open>OSError\<close> for a time outside the range of the platform.
\<close>

record 'w env =
  datetime_now :: "'w \<Rightarrow> datetime \<times> 'w"
  dt_timestamp :: "datetime \<Rightarrow> exn + real"
  timedelta_sub :: "datetime \<Rightarrow> int \<Rightarrow> int \<Rightarrow> exn + datetime"
  strptime :: "pystr \<Rightarrow> pystr \<Rightarrow> exn + datetime"
  int_of_str :: "pystr \<Rightarrow> exn + int"
  str_lower :: "pystr \<Rightarrow> pystr"
  acc_get_sales :: "pystr option \<Rightarrow> 'w \<Rightarrow> (exn + sales_result) \<times> 'w"
  acc_get_order :: "pystr \<Rightarrow> 'w \<Rightarrow> (exn + order_status) \<times> 'w"
  asyncio_sleep :: "nat \<Rightarrow> 'w \<Rightarrow> 'w"
  requests_call :: "http_request \<Rightarrow> 'w \<Rightarrow> (exn + response) \<times> 'w"
  app_config_of :: "response \<Rightarrow> exn + json"
  ticket_token_of :: "response \<Rightarrow> exn + json"
  json_of :: "response \<Rightarrow> exn + json"
  file_write :: "settings \<Rightarrow> 'w \<Rightarrow> write_outcome \<times> 'w"
  bot_call :: "tg_call \<Rightarrow> 'w \<Rightarrow> exn option \<times> 'w"

text \<open>The calls the module makes, in the order it makes them.\<close>

datatype event =
    EvNow
  | EvGetSales "pystr option"
  | EvGetOrder pystr
  | EvSleep nat
  | EvRequest http_request "exn + response"
  | EvSave settings
  | EvBot tg_call

text \<open>
  The program state: the module global \<open>SETTINGS\<close>, the settings file, the outside
  world, and the log of the calls made so far.
\<close>

record 'w state =
  SETTINGS :: settings
  disk :: settings_file
  world :: 'w
  trace :: "event list"

definition emit :: "event \<Rightarrow> 'w \<Rightarrow> 'w state \<Rightarrow> 'w state" where
  "emit ev w s = s\<lparr>world := w, trace := trace s @ [ev]\<rparr>"

definition do_now :: "'w env \<Rightarrow> 'w state \<Rightarrow> datetime \<times> 'w state" where
  "do_now E s = (case datetime_now E (world s) of (d, w) \<Rightarrow> (d, emit EvNow w s))"

definition do_get_sales :: "'w env \<Rightarrow> pystr option \<Rightarrow> 'w state \<Rightarrow> (exn + sales_result) \<times> 'w state" where
  "do_get_sales E start_from s =
     (case acc_get_sales E start_from (world s) of (r, w) \<Rightarrow> (r, emit (EvGetSales start_from) w s))"

definition do_get_order :: "'w env \<Rightarrow> pystr \<Rightarrow> 'w state \<Rightarrow> (exn + order_status) \<times> 'w state" where
  "do_get_order E deal_id s =
     (case acc_get_order E deal_id (world s) of (r, w) \<Rightarrow> (r, emit (EvGetOrder deal_id) w s))"

definition do_sleep :: "'w env \<Rightarrow> nat \<Rightarrow> 'w state \<Rightarrow> 'w state" where
  "do_sleep E n s = emit (EvSleep n) (asyncio_sleep E n (world s)) s"

definition do_request :: "'w env \<Rightarrow> http_request \<Rightarrow> 'w state \<Rightarrow> (exn + response) \<times> 'w state" where
  "do_request E rq s =
     (case requests_call E rq (world s) of (r, w) \<Rightarrow> (r, emit (EvRequest rq r) w s))"

definition do_bot :: "'w env \<Rightarrow> tg_call \<Rightarrow> 'w state \<Rightarrow> exn option \<times> 'w state" where
  "do_bot E c s = (case bot_call E c (world s) of (r, w) \<Rightarrow> (r, emit (EvBot c) w s))"

section \<open>\<open>parse_funpay_date\<close>\<close>

definition today_prefix :: pystr where
  "today_prefix = [1057, 1077, 1075, 1086, 1076, 1085, 1103]"

definition yesterday_prefix :: pystr where
  "yesterday_prefix = [1042, 1095, 1077, 1088, 1072]"

definition at_word :: pystr where
  "at_word = [32, 1074, 32]"

definition fmt_day_month_at :: pystr where
  "fmt_day_month_at = cp ''%d %b'' @ at_word @ cp ''%H:%M''"

definition fmt_day_month_comma :: pystr where
  "fmt_day_month_comma = cp ''%d %b, %H:%M''"

definition fmt_full :: pystr where
  "fmt_full = cp ''%Y-%m-%d %H:%M:%S''"

text \<open>\<open>h, m = map(int, t.split(":"))\<close>: anything but two integers raises \<open>ValueError\<close>.\<close>

definition hour_minute :: "'w env \<Rightarrow> pystr \<Rightarrow> exn + (int \<times> int)" where
  "hour_minute E t =
     (case split 58 t of
        [a, b] \<Rightarrow>
          (case int_of_str E a of
             Inl e \<Rightarrow> Inl e
           | Inr h \<Rightarrow> (case int_of_str E b of Inl e \<Rightarrow> Inl e | Inr m \<Rightarrow> Inr (h, m)))
      | _ \<Rightarrow> Inl ValueError)"

text \<open>
  The body of the \<open>try\<close>, for the stripped string and the \<open>now\<close> read before it. The
  first branch reads the clock once more.
\<close>

definition parse_try :: "'w env \<Rightarrow> datetime \<Rightarrow> pystr \<Rightarrow> 'w state \<Rightarrow> (exn + real) \<times> 'w state" where
  "parse_try E now date_str s =
     (if startswith date_str today_prefix then
        (case hour_minute E (replace (today_prefix @ at_word) [] date_str) of
           Inl e \<Rightarrow> (Inl e, s)
         | Inr (h, m) \<Rightarrow>
             (case do_now E s of
                (now2, s1) \<Rightarrow>
                  (case checked (now2\<lparr>dt_hour := h, dt_minute := m, dt_second := 0,
                                      dt_microsecond := 0\<rparr>) of
                     Inl e \<Rightarrow> (Inl e, s1)
                   | Inr d \<Rightarrow> (dt_timestamp E d, s1))))
      else if startswith date_str yesterday_prefix then
        (case hour_minute E (replace (yesterday_prefix @ at_word) [] date_str) of
           Inl e \<Rightarrow> (Inl e, s)
         | Inr (h, m) \<Rightarrow>
             (case timedelta_sub E now 1 0 of
                Inl e \<Rightarrow> (Inl e, s)
              | Inr y \<Rightarrow>
                  (case checked (y\<lparr>dt_hour := 0, dt_minute := 0, dt_second := 0,
                                   dt_microsecond := 0\<rparr>) of
                     Inl e \<Rightarrow> (Inl e, s)
                   | Inr yesterday \<Rightarrow>
                       (case checked (yesterday\<lparr>dt_hour := h, dt_minute := m\<rparr>) of
                          Inl e \<Rightarrow> (Inl e, s)
                        | Inr d \<Rightarrow> (dt_timestamp E d, s)))))
      else if str_in at_word date_str then
        (case strptime E date_str fmt_day_month_at of
           Inl e \<Rightarrow> (Inl e, s)
         | Inr p \<Rightarrow>
             (case checked (p\<lparr>dt_year := dt_year now\<rparr>) of
                Inl e \<Rightarrow> (Inl e, s)
              | Inr d \<Rightarrow> (dt_timestamp E d, s)))
      else if str_in [44] date_str then
        (case strptime E date_str fmt_day_month_comma of
           Inl e \<Rightarrow> (Inl e, s)
         | Inr p \<Rightarrow>
             (case checked (p\<lparr>dt_year := dt_year now\<rparr>) of
                Inl e \<Rightarrow> (Inl e, s)
              | Inr d \<Rightarrow> (dt_timestamp E d, s)))
      else
        (case strptime E date_str fmt_full of
           Inl e \<Rightarrow> (Inl e, s)
         | Inr p \<Rightarrow> (dt_timestamp E p, s)))"

text \<open>
  The function itself. Its value is an exception or a number, so that "it does not
  raise" is a statement about it; the bare \<open>except:\<close> turns every exception of the
  body into \<open>0\<close>. The \<open>timestamp()\<close> of a \<open>datetime\<close> is returned before the \<open>try\<close>.
\<close>

definition parse_funpay_date :: "'w env \<Rightarrow> date_obj \<Rightarrow> 'w state \<Rightarrow> (exn + real) \<times> 'w state" where
  "parse_funpay_date E date_obj s =
     (case date_obj of
        DateTime d \<Rightarrow> (dt_timestamp E d, s)
      | DateStr raw \<Rightarrow>
          (case do_now E s of
             (now, s1) \<Rightarrow>
               (case parse_try E now (strip raw) s1 of
                  (Inl e, s2) \<Rightarrow> (Inr 0, s2)
                | (Inr t, s2) \<Rightarrow> (Inr t, s2))))"

section \<open>\<open>get_old_orders_for_ticket\<close>\<close>

definition max_pages :: nat where
  "max_pages = 10"

text \<open>\<open>not start_from\<close> holds of \<open>None\<close> and of the empty string.\<close>

definition truthy :: "pystr option \<Rightarrow> bool" where
  "truthy c = (case c of None \<Rightarrow> False | Some x \<Rightarrow> x \<noteq> [])"

text \<open>The variables of the \<open>while\<close> loop.\<close>

record scan_vars =
  old_orders_ids :: "pystr list"
  start_from :: "pystr option"
  page_count :: nat

text \<open>How one pass of a loop body ends.\<close>

datatype 'a flow = Continue 'a | Break 'a | Raise exn

text \<open>
  The \<open>for\<close> loop over one page. \<open>parse_funpay_date\<close> is called outside any
  \<open>try\<close>, so an exception of it would leave the scanner. The ledger is read from
  \<open>SETTINGS\<close> at each order.
\<close>

fun scan_orders :: "'w env \<Rightarrow> real \<Rightarrow> int \<Rightarrow> order_data list \<Rightarrow> pystr list \<Rightarrow> real list
    \<Rightarrow> 'w state \<Rightarrow> (exn + pystr list \<times> real list) \<times> 'w state" where
  "scan_orders E cutoff max_count [] old batch s = (Inr (old, batch), s)"
| "scan_orders E cutoff max_count (od # rest) old batch s =
     (case parse_funpay_date E (order_date od) s of
        (Inl e, s1) \<Rightarrow> (Inl e, s1)
      | (Inr order_timestamp, s1) \<Rightarrow>
          if order_timestamp = 0 then scan_orders E cutoff max_count rest old batch s1
          else
            let old' = (if order_timestamp < cutoff
                          \<and> order_id od \<notin> set (sent_order_ids (SETTINGS s1))
                        then old @ [order_id od] else old)
            in if max_count \<le> int (length old') then (Inr (old', batch @ [order_timestamp]), s1)
               else scan_orders E cutoff max_count rest old' (batch @ [order_timestamp]) s1)"

text \<open>
  One pass of the \<open>while\<close> body. An exception of \<open>get_sales\<close> breaks before
  \<open>page_count\<close> is incremented.
\<close>

definition scan_iteration :: "'w env \<Rightarrow> real \<Rightarrow> int \<Rightarrow> scan_vars \<Rightarrow> 'w state
    \<Rightarrow> scan_vars flow \<times> 'w state" where
  "scan_iteration E cutoff max_count v s =
     (case do_get_sales E (start_from v) s of
        (Inl e, s1) \<Rightarrow> (Break v, s1)
      | (Inr result, s1) \<Rightarrow>
          let v1 = v\<lparr>page_count := page_count v + 1\<rparr> in
          (case result of
             None \<Rightarrow> (Break v1, s1)
           | Some (next_cursor, orders) \<Rightarrow>
               if orders = [] then (Break v1, s1)
               else
                 (case scan_orders E cutoff max_count orders (old_orders_ids v1) [] s1 of
                    (Inl e, s2) \<Rightarrow> (Raise e, s2)
                  | (Inr (old', batch), s2) \<Rightarrow>
                      let v2 = v1\<lparr>old_orders_ids := old'\<rparr> in
                      if batch \<noteq> [] \<and> cutoff \<le> py_min batch then (Break v2, s2)
                      else
                        let v3 = v2\<lparr>start_from := next_cursor\<rparr> in
                        if \<not> truthy next_cursor then (Break v3, s2)
                        else (Continue v3, do_sleep E 1 s2))))"

function scan_loop :: "'w env \<Rightarrow> real \<Rightarrow> int \<Rightarrow> scan_vars \<Rightarrow> 'w state
    \<Rightarrow> (exn + scan_vars) \<times> 'w state" where
  "scan_loop E cutoff max_count v s =
     (if int (length (old_orders_ids v)) < max_count \<and> page_count v < max_pages then
        (case scan_iteration E cutoff max_count v s of
           (Continue v', s') \<Rightarrow> scan_loop E cutoff max_count v' s'
         | (Break v', s') \<Rightarrow> (Inr v', s')
         | (Raise e, s') \<Rightarrow> (Inl e, s'))
      else (Inr v, s))"
  by pat_completeness auto
termination
  apply (relation "measure (\<lambda>(E, cutoff, max_count, v, s). max_pages - page_count v)")
   apply simp
  apply (auto simp: scan_iteration_def Let_def
      split: prod.splits sum.splits option.splits if_splits)
  done

text \<open>
  The scanner. \<open>(datetime.now() - timedelta(hours=age_hours)).timestamp()\<close> is
  evaluated before the loop and outside any \<open>try\<close>.
\<close>

definition get_old_orders_for_ticket :: "'w env \<Rightarrow> int \<Rightarrow> int \<Rightarrow> 'w state
    \<Rightarrow> (exn + pystr list) \<times> 'w state" where
  "get_old_orders_for_ticket E age_hours max_count s =
     (case do_now E s of
        (now, s0) \<Rightarrow>
          (case timedelta_sub E now 0 age_hours of
             Inl e \<Rightarrow> (Inl e, s0)
           | Inr d \<Rightarrow>
               (case dt_timestamp E d of
                  Inl e \<Rightarrow> (Inl e, s0)
                | Inr cutoff_timestamp \<Rightarrow>
                    (case scan_loop E cutoff_timestamp max_count
                            \<lparr>old_orders_ids = [], start_from = None, page_count = 0\<rparr> s0 of
                       (Inl e, s1) \<Rightarrow> (Inl e, s1)
                     | (Inr v, s1) \<Rightarrow> (Inr (slice_to (old_orders_ids v) max_count), s1)))))"

section \<open>\<open>FunPaySupportAPI\<close>\<close>

record support_api =
  funpay_account :: account
  api_golden_key :: pystr
  api_user_agent :: pystr
  api_requests_timeout :: int
  app_data :: json
  csrf_token :: json
  phpsessid :: pystr

definition FunPaySupportAPI :: "account \<Rightarrow> support_api" where
  "FunPaySupportAPI acc =
     \<lparr>funpay_account = acc, api_golden_key = golden_key acc, api_user_agent = user_agent acc,
      api_requests_timeout = requests_timeout acc, app_data = JObj [], csrf_token = JStr [],
      phpsessid = []\<rparr>"

text \<open>\<open>d[k] = v\<close> on a dict kept as its list of items.\<close>

fun dict_set :: "pystr \<Rightarrow> 'v \<Rightarrow> (pystr \<times> 'v) list \<Rightarrow> (pystr \<times> 'v) list" where
  "dict_set k v [] = [(k, v)]"
| "dict_set k v ((k', v') # d) = (if k' = k then (k, v) # d else (k', v') # dict_set k v d)"

definition support_root :: pystr where
  "support_root = cp ''https://support.funpay.com/''"

text \<open>The condition under which the \<open>for\<close> loop of \<open>FunPaySupportAPI.method\<close> breaks.\<close>

definition stops :: "response \<Rightarrow> bool" where
  "stops r \<longleftrightarrow> \<not> (300 \<le> status_code r \<and> status_code r < 400) \<or> \<not> truthy (location r)
     \<or> location r = Some (cp ''/'')"

text \<open>
  The \<open>for i in range(10)\<close> loop, with the number of passes left. \<open>Some r\<close> is the
  response at the \<open>break\<close>, \<open>None\<close> the loop running to its end, which is when
  Python runs the \<open>else\<close> clause.
\<close>

fun follow :: "'w env \<Rightarrow> http_request \<Rightarrow> pystr \<Rightarrow> nat \<Rightarrow> 'w state
    \<Rightarrow> (exn + response option) \<times> 'w state" where
  "follow E rq link 0 s = (Inr None, s)"
| "follow E rq link (Suc n) s =
     (case do_request E (rq\<lparr>req_url := link, allow_redirects := Some False\<rparr>) s of
        (Inl e, s1) \<Rightarrow> (Inl e, s1)
      | (Inr r, s1) \<Rightarrow>
          if stops r then (Inr (Some r), s1)
          else (case location r of
                  None \<Rightarrow> (Inl KeyError, s1)
                | Some l \<Rightarrow> follow E rq l n s1))"

text \<open>\<open>FunPaySupportAPI.method\<close>, whose name is a keyword here.\<close>

definition api_method :: "'w env \<Rightarrow> support_api \<Rightarrow> pystr \<Rightarrow> pystr \<Rightarrow> (pystr \<times> json) list
    \<Rightarrow> (pystr \<times> json) list \<Rightarrow> bool \<Rightarrow> 'w state \<Rightarrow> (exn + response) \<times> 'w state" where
  "api_method E self meth url headers payload exclude_phpsessid s =
     (let cookie = cp ''golden_key='' @ api_golden_key self @ cp ''; cookie_prefs=1''
            @ (if phpsessid self \<noteq> [] \<and> \<not> exclude_phpsessid
               then cp ''; PHPSESSID='' @ phpsessid self else []);
          headers1 = dict_set (cp ''Cookie'') (JStr cookie) headers;
          headers2 = (if api_user_agent self \<noteq> []
                      then dict_set (cp ''User-Agent'') (JStr (api_user_agent self)) headers1
                      else headers1);
          rq = \<lparr>req_method = meth, req_url = url, req_headers = headers2, req_data = payload,
                req_timeout = api_requests_timeout self, allow_redirects = None\<rparr>
      in case follow E rq url 10 s of
           (Inl e, s1) \<Rightarrow> (Inl e, s1)
         | (Inr (Some r), s1) \<Rightarrow> (Inr r, s1)
         | (Inr None, s1) \<Rightarrow> do_request E rq s1)"

text \<open>\<open>d[k]\<close> for a string key: only a dict that has the key answers.\<close>

definition subscript :: "json \<Rightarrow> pystr \<Rightarrow> exn + json" where
  "subscript d k =
     (case d of
        JObj items \<Rightarrow> (case map_of items k of None \<Rightarrow> Inl KeyError | Some v \<Rightarrow> Inr v)
      | _ \<Rightarrow> Inl TypeError)"

definition get :: "'w env \<Rightarrow> support_api \<Rightarrow> 'w state \<Rightarrow> (exn + support_api) \<times> 'w state" where
  "get E self s =
     (case api_method E self (cp ''get'') support_root [] [] True s of
        (Inl e, s1) \<Rightarrow> (Inl e, s1)
      | (Inr r, s1) \<Rightarrow>
          let self1 = self\<lparr>phpsessid :=
                (case cookie_phpsessid r of None \<Rightarrow> phpsessid self | Some c \<Rightarrow> c)\<rparr> in
          (case api_method E self1 (cp ''get'') support_root [] [] False s1 of
             (Inl e, s2) \<Rightarrow> (Inl e, s2)
           | (Inr r2, s2) \<Rightarrow>
               (case app_config_of E r2 of
                  Inl e \<Rightarrow> (Inl e, s2)
                | Inr cfg \<Rightarrow>
                    (case subscript cfg (cp ''csrfToken'') of
                       Inl e \<Rightarrow> (Inl e, s2)
                     | Inr tok \<Rightarrow> (Inr (self1\<lparr>app_data := cfg, csrf_token := tok\<rparr>), s2)))))"

definition get_ticket_token :: "'w env \<Rightarrow> support_api \<Rightarrow> 'w state \<Rightarrow> (exn + json) \<times> 'w state" where
  "get_ticket_token E self s =
     (let headers =
            [(cp ''X-CSRF-Token'', csrf_token self),
             (cp ''Accept'', JStr (cp ''text/html,application/xhtml+xml,application/xml;q=0.9,image/avif,image/webp,image/apng,*/*;q=0.8,application/signed-exchange;v=b3;q=0.7'')),
             (cp ''Accept-Encoding'', JStr (cp ''gzip, deflate, br, zstd'')),
             (cp ''Referer'', JStr support_root)]
      in case api_method E self (cp ''get'') (cp ''https://support.funpay.com/tickets/new/1'')
                headers [] False s of
           (Inl e, s1) \<Rightarrow> (Inl e, s1)
         | (Inr r, s1) \<Rightarrow> (ticket_token_of E r, s1))"

definition create_ticket :: "'w env \<Rightarrow> support_api \<Rightarrow> pystr option \<Rightarrow> pystr \<Rightarrow> 'w state
    \<Rightarrow> (exn + json) \<times> 'w state" where
  "create_ticket E self ord comment s =
     (case get_ticket_token E self s of
        (Inl e, s1) \<Rightarrow> (Inl e, s1)
      | (Inr ticket_token, s1) \<Rightarrow>
          let headers =
                [(cp ''Origin'', JStr (cp ''https://support.funpay.com'')),
                 (cp ''Accept'', JStr (cp ''application/json'')),
                 (cp ''Content-Type'', JStr (cp ''application/x-www-form-urlencoded; charset=UTF-8'')),
                 (cp ''X-Requested-With'', JStr (cp ''XMLHttpRequest''))];
              payload =
                [(cp ''ticket[fields][1]'', JStr (username (funpay_account self))),
                 (cp ''ticket[fields][2]'',
                    JStr (case ord of None \<Rightarrow> [] | Some i \<Rightarrow> i)),
                 (cp ''ticket[fields][3]'', JStr (cp ''2'')),
                 (cp ''ticket[fields][5]'', JStr (cp ''201'')),
                 (cp ''ticket[comment][body_html]'', JStr (cp ''<p>'' @ comment @ cp ''</p>'')),
                 (cp ''ticket[comment][attachments]'', JStr []),
                 (cp ''ticket[_token]'', ticket_token)]
          in (case api_method E self (cp ''post'') (cp ''https://support.funpay.com/tickets/create/1'')
                     headers payload False s1 of
                (Inl e, s2) \<Rightarrow> (Inl e, s2)
              | (Inr r, s2) \<Rightarrow> (json_of E r, s2)))"

section \<open>\<open>_report_deal_problem_raw\<close> and \<open>report_deal_problems\<close>\<close>

text \<open>\<open>d.get(k, default)\<close>: an \<open>AttributeError\<close> on anything but a dict.\<close>

definition dict_get :: "json \<Rightarrow> pystr \<Rightarrow> json \<Rightarrow> exn + json" where
  "dict_get d k dflt =
     (case d of
        JObj items \<Rightarrow> Inr (case map_of items k of None \<Rightarrow> dflt | Some v \<Rightarrow> v)
      | _ \<Rightarrow> Inl AttributeError)"

text \<open>\<open>v.lower()\<close>: only a \<open>str\<close> has it.\<close>

definition lower_of :: "'w env \<Rightarrow> json \<Rightarrow> exn + pystr" where
  "lower_of E v = (case v of JStr m \<Rightarrow> Inr (str_lower E m) | _ \<Rightarrow> Inl AttributeError)"

text \<open>
  \<open>needle in v\<close> for a string \<open>needle\<close>: a substring of a \<open>str\<close>, an element of a
  list, a key of a dict, and a \<open>TypeError\<close> on a value that is not iterable.
\<close>

definition py_in :: "pystr \<Rightarrow> json \<Rightarrow> exn + bool" where
  "py_in needle v =
     (case v of
        JStr h \<Rightarrow> Inr (str_in needle h)
      | JArr xs \<Rightarrow> Inr (JStr needle \<in> set xs)
      | JObj items \<Rightarrow> Inr (needle \<in> fst ` set items)
      | _ \<Rightarrow> Inl TypeError)"

definition success_phrase :: pystr where
  "success_phrase = [1079, 1072, 1103, 1074, 1082, 1072, 32,
                     1086, 1090, 1087, 1088, 1072, 1074, 1083, 1077, 1085, 1072]"

text \<open>The condition of the \<open>if\<close> at the end of the \<open>try\<close>, with \<open>and\<close> short-circuiting.\<close>

definition response_ok :: "'w env \<Rightarrow> json \<Rightarrow> exn + bool" where
  "response_ok E response_json =
     (case dict_get response_json (cp ''action'') JNull of
        Inl e \<Rightarrow> Inl e
      | Inr a \<Rightarrow>
          if a \<noteq> JStr (cp ''message'') then Inr False
          else
            (case dict_get response_json (cp ''message'') (JStr []) of
               Inl e \<Rightarrow> Inl e
             | Inr m \<Rightarrow>
                 (case lower_of E m of
                    Inl e \<Rightarrow> Inl e
                  | Inr low \<Rightarrow>
                      if \<not> str_in success_phrase low then Inr False
                      else
                        (case dict_get response_json (cp ''url'') (JStr []) of
                           Inl e \<Rightarrow> Inl e
                         | Inr u \<Rightarrow> py_in (cp ''/tickets/'') u))))"

definition comment_prefix :: pystr where
  "comment_prefix = [1055, 1086, 1082, 1091, 1087, 1072, 1090, 1077, 1083, 1100, 32, 1085, 1077,
     32, 1087, 1086, 1076, 1090, 1074, 1077, 1088, 1078, 1076, 1072, 1077, 1090, 32, 1074, 1099,
     1087, 1086, 1083, 1085, 1077, 1085, 1080, 1077, 32, 1079, 1072, 1082, 1072, 1079, 1072, 32, 35]"

text \<open>The outer \<open>try\<close> of \<open>_report_deal_problem_raw\<close>, the inner one included.\<close>

definition report_try :: "'w env \<Rightarrow> account \<Rightarrow> pystr \<Rightarrow> 'w state \<Rightarrow> (exn + bool) \<times> 'w state" where
  "report_try E acc deal_id s =
     (case do_get_order E deal_id s of
        (Inl e, s1) \<Rightarrow> (Inr False, s1)
      | (Inr status, s1) \<Rightarrow>
          if status \<noteq> PAID then (Inr False, s1)
          else
            (case get E (FunPaySupportAPI acc) s1 of
               (Inl e, s2) \<Rightarrow> (Inl e, s2)
             | (Inr support, s2) \<Rightarrow>
                 (case create_ticket E support (Some deal_id)
                         (comment_prefix @ deal_id @ cp ''.'') s2 of
                    (Inl e, s3) \<Rightarrow> (Inl e, s3)
                  | (Inr response_json, s3) \<Rightarrow> (response_ok E response_json, s3))))"

text \<open>\<open>except Exception\<close> around it: every exception becomes \<open>False\<close>.\<close>

definition report_deal_problem_raw :: "'w env \<Rightarrow> account \<Rightarrow> pystr \<Rightarrow> 'w state
    \<Rightarrow> (exn + bool) \<times> 'w state" where
  "report_deal_problem_raw E acc deal_id s =
     (case report_try E acc deal_id s of
        (Inl e, s1) \<Rightarrow> (Inr False, s1)
      | (Inr b, s1) \<Rightarrow> (Inr b, s1))"

text \<open>The \<open>for i, deal_id in enumerate(orders_ids)\<close> loop, from index \<open>i\<close>.\<close>

fun report_loop :: "'w env \<Rightarrow> account \<Rightarrow> nat \<Rightarrow> pystr list \<Rightarrow> pystr list \<Rightarrow> 'w state
    \<Rightarrow> (exn + pystr list) \<times> 'w state" where
  "report_loop E acc i [] reported s = (Inr reported, s)"
| "report_loop E acc i (deal_id # rest) reported s =
     (let s0 = (if 0 < i then do_sleep E 2 s else s) in
      case report_deal_problem_raw E acc deal_id s0 of
        (Inl e, s1) \<Rightarrow> (Inl e, s1)
      | (Inr success, s1) \<Rightarrow>
          report_loop E acc (i + 1) rest
            (if success then reported @ [deal_id] else reported) s1)"

definition report_deal_problems :: "'w env \<Rightarrow> account \<Rightarrow> pystr list \<Rightarrow> 'w state
    \<Rightarrow> (exn + pystr list) \<times> 'w state" where
  "report_deal_problems E acc orders_ids s = report_loop E acc 0 orders_ids [] s"

section \<open>The Telegram handlers\<close>

text \<open>
  \<open>Settings.save\<close>: the file holds the dump once the write went through; a failure
  raises, before or after the file was truncated.
\<close>

definition save :: "'w env \<Rightarrow> 'w state \<Rightarrow> exn option \<times> 'w state" where
  "save E s =
     (case file_write E (SETTINGS s) (world s) of
        (Written, w) \<Rightarrow> (None, (emit (EvSave (SETTINGS s)) w s)\<lparr>disk := Dump (SETTINGS s)\<rparr>)
      | (OpenFailed, w) \<Rightarrow> (Some OSError, emit (EvSave (SETTINGS s)) w s)
      | (WriteFailed, w) \<Rightarrow> (Some OSError, (emit (EvSave (SETTINGS s)) w s)\<lparr>disk := Partial\<rparr>))"

text \<open>\<open>_edit\<close>: a failed edit is answered by an alert, which is not protected.\<close>

definition edit :: "'w env \<Rightarrow> ui_text \<Rightarrow> 'w state \<Rightarrow> exn option \<times> 'w state" where
  "edit E text s =
     (case do_bot E (EditMessageText text) s of
        (None, s1) \<Rightarrow> (None, s1)
      | (Some e, s1) \<Rightarrow> do_bot E (AnswerCallbackQuery UpdateError) s1)"

text \<open>\<open>SETTINGS.sent_order_ids.extend(reported_orders)\<close>.\<close>

definition extend_ledger :: "pystr list \<Rightarrow> 'w state \<Rightarrow> 'w state" where
  "extend_ledger reported_orders s =
     s\<lparr>SETTINGS := (SETTINGS s)\<lparr>sent_order_ids := sent_order_ids (SETTINGS s) @ reported_orders\<rparr>\<rparr>"

text \<open>
  \<open>act_send_ticket\<close> up to the return of \<open>report_deal_problems\<close>: an exception, the
  early \<open>return\<close> on an empty scan, or the candidates with the reported ones.
\<close>

definition act_send_ticket_scan :: "'w env \<Rightarrow> account \<Rightarrow> 'w state
    \<Rightarrow> (exn + (pystr list \<times> pystr list) option) \<times> 'w state" where
  "act_send_ticket_scan E acc s =
     (case do_bot E (AnswerCallbackQuery ScanningAlert) s of
        (Some e, s1) \<Rightarrow> (Inl e, s1)
      | (None, s1) \<Rightarrow>
          (case edit E Scanning s1 of
             (Some e, s2) \<Rightarrow> (Inl e, s2)
           | (None, s2) \<Rightarrow>
               (case get_old_orders_for_ticket E (order_age_hours (SETTINGS s2))
                       (max_orders_in_ticket (SETTINGS s2)) s2 of
                  (Inl e, s3) \<Rightarrow> (Inl e, s3)
                | (Inr orders, s3) \<Rightarrow>
                    if orders = [] then
                      (case edit E NoOldOrders s3 of
                         (Some e, s4) \<Rightarrow> (Inl e, s4)
                       | (None, s4) \<Rightarrow> (Inr None, s4))
                    else
                      (case report_deal_problems E acc orders s3 of
                         (Inl e, s4) \<Rightarrow> (Inl e, s4)
                       | (Inr reported_orders, s4) \<Rightarrow>
                           (Inr (Some (orders, reported_orders)), s4)))))"

text \<open>The rest of \<open>act_send_ticket\<close>: the summary, the alert, and the ledger.\<close>

definition act_send_ticket_report :: "'w env \<Rightarrow> pystr list \<Rightarrow> pystr list \<Rightarrow> 'w state
    \<Rightarrow> exn option \<times> 'w state" where
  "act_send_ticket_report E orders reported_orders s =
     (let total_orders = length orders;
          sent_count = length reported_orders;
          skipped_count = int total_orders - int sent_count;
          success_text =
            (if 0 < sent_count then TicketSent sent_count reported_orders skipped_count
             else if skipped_count = int total_orders then NoneAvailable
             else AllFailed total_orders)
      in case edit E success_text s of
           (Some e, s1) \<Rightarrow> (Some e, s1)
         | (None, s1) \<Rightarrow>
             (case do_bot E (AnswerCallbackQuery (SentAlert sent_count)) s1 of
                (r, s2) \<Rightarrow>
                  if 0 < sent_count then save E (extend_ledger reported_orders s2)
                  else (None, s2)))"

definition act_send_ticket :: "'w env \<Rightarrow> account \<Rightarrow> 'w state \<Rightarrow> exn option \<times> 'w state" where
  "act_send_ticket E acc s =
     (case act_send_ticket_scan E acc s of
        (Inl e, s1) \<Rightarrow> (Some e, s1)
      | (Inr None, s1) \<Rightarrow> (None, s1)
      | (Inr (Some (orders, reported_orders)), s1) \<Rightarrow>
          act_send_ticket_report E orders reported_orders s1)"

text \<open>\<open>int(m.text)\<close>; the text of a message that is not a text message is \<open>None\<close>.\<close>

definition int_of_text :: "'w env \<Rightarrow> pystr option \<Rightarrow> exn + int" where
  "int_of_text E text = (case text of None \<Rightarrow> Inl TypeError | Some t \<Rightarrow> int_of_str E t)"

text \<open>The \<open>try\<close> of the \<open>handler\<close> inside \<open>act_edit_time\<close>.\<close>

definition act_edit_time_try :: "'w env \<Rightarrow> pystr option \<Rightarrow> 'w state \<Rightarrow> exn option \<times> 'w state" where
  "act_edit_time_try E text s =
     (case int_of_text E text of
        Inl e \<Rightarrow> (Some e, s)
      | Inr val \<Rightarrow>
          if 1 \<le> val \<and> val \<le> 720 then
            (case save E (s\<lparr>SETTINGS := (SETTINGS s)\<lparr>order_age_hours := val\<rparr>\<rparr>) of
               (Some e, s1) \<Rightarrow> (Some e, s1)
             | (None, s1) \<Rightarrow> do_bot E (SendMessage MainMenu) s1)
          else (Some ValueError, s))"

definition act_edit_time_handler :: "'w env \<Rightarrow> pystr option \<Rightarrow> 'w state
    \<Rightarrow> exn option \<times> 'w state" where
  "act_edit_time_handler E text s =
     (case act_edit_time_try E text s of
        (None, s1) \<Rightarrow> do_bot E ClearState s1
      | (Some e, s1) \<Rightarrow>
          (case do_bot E (SendMessage InvalidHours) s1 of
             (Some e', s2) \<Rightarrow> (Some e', s2)
           | (None, s2) \<Rightarrow> do_bot E ClearState s2))"

text \<open>The same for the \<open>handler\<close> inside \<open>act_edit_count\<close>.\<close>

definition act_edit_count_try :: "'w env \<Rightarrow> pystr option \<Rightarrow> 'w state \<Rightarrow> exn option \<times> 'w state" where
  "act_edit_count_try E text s =
     (case int_of_text E text of
        Inl e \<Rightarrow> (Some e, s)
      | Inr val \<Rightarrow>
          if 1 \<le> val \<and> val \<le> 50 then
            (case save E (s\<lparr>SETTINGS := (SETTINGS s)\<lparr>max_orders_in_ticket := val\<rparr>\<rparr>) of
               (Some e, s1) \<Rightarrow> (Some e, s1)
             | (None, s1) \<Rightarrow> do_bot E (SendMessage MainMenu) s1)
          else (Some ValueError, s))"

definition act_edit_count_handler :: "'w env \<Rightarrow> pystr option \<Rightarrow> 'w state
    \<Rightarrow> exn option \<times> 'w state" where
  "act_edit_count_handler E text s =
     (case act_edit_count_try E text s of
        (None, s1) \<Rightarrow> do_bot E ClearState s1
      | (Some e, s1) \<Rightarrow>
          (case do_bot E (SendMessage InvalidCount) s1 of
             (Some e', s2) \<Rightarrow> (Some e', s2)
           | (None, s2) \<Rightarrow> do_bot E ClearState s2))"

section \<open>Reading the log\<close>

text \<open>The page fetches, the order look-ups, the requests and the saves of a log.\<close>

fun fetches :: "event list \<Rightarrow> nat" where
  "fetches [] = 0"
| "fetches (EvGetSales c # evs) = Suc (fetches evs)"
| "fetches (ev # evs) = fetches evs"

fun lookups :: "event list \<Rightarrow> pystr list" where
  "lookups [] = []"
| "lookups (EvGetOrder i # evs) = i # lookups evs"
| "lookups (ev # evs) = lookups evs"

fun requests :: "event list \<Rightarrow> (http_request \<times> (exn + response)) list" where
  "requests [] = []"
| "requests (EvRequest rq r # evs) = (rq, r) # requests evs"
| "requests (ev # evs) = requests evs"

fun saves :: "event list \<Rightarrow> settings list" where
  "saves [] = []"
| "saves (EvSave st # evs) = st # saves evs"
| "saves (ev # evs) = saves evs"

text \<open>
  Nothing of the ledger moved between two states: \<open>SETTINGS\<close> and the settings
  file are the same, and no save was attempted.
\<close>

definition untouched :: "'w state \<Rightarrow> 'w state \<Rightarrow> bool" where
  "untouched s s' \<longleftrightarrow>
     SETTINGS s' = SETTINGS s \<and> disk s' = disk s \<and> saves (trace s') = saves (trace s)"

text \<open>
  A chain of calls that follows redirects by hand from \<open>link\<close>: each call goes to the
  current link with \<open>allow_redirects=False\<close>, and every call but the last was answered
  by a redirect whose \<open>Location\<close> is the next link.
\<close>

fun chain :: "pystr \<Rightarrow> (http_request \<times> (exn + response)) list \<Rightarrow> bool" where
  "chain link [] = True"
| "chain link ((rq, res) # rest) =
     (req_url rq = link \<and> allow_redirects rq = Some False \<and>
      (rest = [] \<or>
       (case res of
          Inl e \<Rightarrow> False
        | Inr r \<Rightarrow> \<not> stops r \<and> (case location r of None \<Rightarrow> False | Some l \<Rightarrow> chain l rest))))"

text \<open>
  Whether the library follows redirects for a call: as the argument says, and by the
  default of \<open>requests\<close> when it is not passed, which is to follow for every helper
  but \<open>head\<close>.
\<close>

definition follows_redirects :: "http_request \<Rightarrow> bool" where
  "follows_redirects rq =
     (case allow_redirects rq of Some b \<Rightarrow> b | None \<Rightarrow> req_method rq \<noteq> cp ''head'')"

text \<open>The number of orders a run of \<open>act_send_ticket\<close> reported, \<open>sent_count\<close>.\<close>

definition sent_count_of :: "'w env \<Rightarrow> account \<Rightarrow> 'w state \<Rightarrow> nat" where
  "sent_count_of E acc s =
     (case fst (act_send_ticket_scan E acc s) of
        Inr (Some (orders, reported_orders)) \<Rightarrow> length reported_orders
      | _ \<Rightarrow> 0)"

text \<open>
  What \<open>_report_deal_problem_raw\<close> returns for a response of the portal: the outer
  \<open>except Exception\<close> turns an exception of the condition into \<open>False\<close>.
\<close>

definition classified :: "'w env \<Rightarrow> json \<Rightarrow> bool" where
  "classified E response_json =
     (case response_ok E response_json of Inl e \<Rightarrow> False | Inr b \<Rightarrow> b)"

text \<open>The candidates that a run of \<open>act_send_ticket\<close> got from the scanner.\<close>

definition candidates_of :: "'w env \<Rightarrow> account \<Rightarrow> 'w state \<Rightarrow> pystr list" where
  "candidates_of E acc s =
     (case fst (act_send_ticket_scan E acc s) of
        Inr (Some (orders, reported_orders)) \<Rightarrow> orders
      | _ \<Rightarrow> [])"

text \<open>
  One run of \<open>report_deal_problems\<close> on given candidates followed by the merge that
  \<open>act_send_ticket\<close> does with its result (the last three lines of the handler), and
  nothing else of the handler: no scan comes before it.
\<close>

definition report_and_merge :: "'w env \<Rightarrow> account \<Rightarrow> pystr list \<Rightarrow> 'w state \<Rightarrow> 'w state" where
  "report_and_merge E acc orders s =
     (case report_deal_problems E acc orders s of
        (Inl e, s1) \<Rightarrow> s1
      | (Inr reported_orders, s1) \<Rightarrow>
          if 0 < length reported_orders then snd (save E (extend_ledger reported_orders s1))
          else s1)"

section \<open>The rules as the specification words them\<close>

text \<open>
  The success rule of the specification, read by the letter: the three fields are
  strings, \<open>action\<close> is \<open>message\<close>, the lowered \<open>message\<close> has the success phrase in it,
  and \<open>url\<close> has \<open>/tickets/\<close> in it as a substring; every other response is a failure.
\<close>

definition field_str :: "json \<Rightarrow> pystr \<Rightarrow> pystr option" where
  "field_str d k =
     (case d of
        JObj items \<Rightarrow> (case map_of items k of Some (JStr v) \<Rightarrow> Some v | _ \<Rightarrow> None)
      | _ \<Rightarrow> None)"

definition spec_success_rule :: "'w env \<Rightarrow> json \<Rightarrow> bool" where
  "spec_success_rule E response_json \<longleftrightarrow>
     field_str response_json (cp ''action'') = Some (cp ''message'')
     \<and> (case field_str response_json (cp ''message'') of
           Some m \<Rightarrow> str_in success_phrase (str_lower E m)
         | None \<Rightarrow> False)
     \<and> (case field_str response_json (cp ''url'') of
           Some u \<Rightarrow> str_in (cp ''/tickets/'') u
         | None \<Rightarrow> False)"

text \<open>
  The rule with the \<open>url\<close> field read as Python's \<open>in\<close> reads it: a substring of a
  string, an element of a list, a key of an object. A field that is missing counts as
  the empty string.
\<close>

definition field_or_empty :: "(pystr \<times> json) list \<Rightarrow> pystr \<Rightarrow> json" where
  "field_or_empty items k = (case map_of items k of None \<Rightarrow> JStr [] | Some v \<Rightarrow> v)"

definition success_rule :: "'w env \<Rightarrow> json \<Rightarrow> bool" where
  "success_rule E response_json \<longleftrightarrow>
     (case response_json of
        JObj items \<Rightarrow>
          map_of items (cp ''action'') = Some (JStr (cp ''message''))
          \<and> (case field_or_empty items (cp ''message'') of
                JStr m \<Rightarrow> str_in success_phrase (str_lower E m)
              | _ \<Rightarrow> False)
          \<and> (case field_or_empty items (cp ''url'') of
                JStr u \<Rightarrow> str_in (cp ''/tickets/'') u
              | JArr xs \<Rightarrow> JStr (cp ''/tickets/'') \<in> set xs
              | JObj kvs \<Rightarrow> cp ''/tickets/'' \<in> fst ` set kvs
              | _ \<Rightarrow> False)
      | _ \<Rightarrow> False)"

text \<open>
  The five forms of a date string that the specification lists, read by the letter:
  the relative word, \<open>at\<close> and a time; a day, a month name, \<open>at\<close> and a time; a day, a
  month name, a comma and a time; a full date and a time with seconds. Hours and days
  may have one digit or two.
\<close>

definition is_digit :: "nat \<Rightarrow> bool" where
  "is_digit c \<longleftrightarrow> 48 \<le> c \<and> c \<le> 57"

definition digits :: "nat \<Rightarrow> nat \<Rightarrow> pystr \<Rightarrow> bool" where
  "digits lo hi t \<longleftrightarrow> lo \<le> length t \<and> length t \<le> hi \<and> list_all is_digit t"

definition clock_text :: "pystr \<Rightarrow> bool" where
  "clock_text t = (case split 58 t of [h, m] \<Rightarrow> digits 1 2 h \<and> digits 2 2 m | _ \<Rightarrow> False)"

definition clock_seconds_text :: "pystr \<Rightarrow> bool" where
  "clock_seconds_text t =
     (case split 58 t of
        [h, m, sec] \<Rightarrow> digits 2 2 h \<and> digits 2 2 m \<and> digits 2 2 sec
      | _ \<Rightarrow> False)"

definition full_date_text :: "pystr \<Rightarrow> bool" where
  "full_date_text t =
     (case split 45 t of
        [y, m, d] \<Rightarrow> digits 4 4 y \<and> digits 2 2 m \<and> digits 2 2 d
      | _ \<Rightarrow> False)"

definition month_name :: "pystr \<Rightarrow> bool" where
  "month_name t \<longleftrightarrow> t \<noteq> [] \<and> list_all (\<lambda>c. \<not> is_digit c \<and> c \<noteq> 44 \<and> c \<noteq> 58) t"

definition relative_text :: "pystr \<Rightarrow> pystr \<Rightarrow> bool" where
  "relative_text word t \<longleftrightarrow>
     startswith t (word @ at_word) \<and> clock_text (drop (length (word @ at_word)) t)"

definition spec_supported_shape :: "pystr \<Rightarrow> bool" where
  "spec_supported_shape t \<longleftrightarrow>
     relative_text today_prefix t
     \<or> relative_text yesterday_prefix t
     \<or> (case split 32 t of
           [d, mon, a, c] \<Rightarrow> digits 1 2 d \<and> month_name mon \<and> a = [1074] \<and> clock_text c
         | [d, mon, c] \<Rightarrow>
             digits 1 2 d \<and> mon \<noteq> [] \<and> last mon = 44 \<and> month_name (butlast mon)
             \<and> clock_text c
         | [d, c] \<Rightarrow> full_date_text d \<and> clock_seconds_text c
         | _ \<Rightarrow> False)"

section \<open>A scripted environment\<close>

text \<open>
  One concrete environment, to run the module on: the world is a script of the answers
  the outside gives. The clock stands still, a timestamp is taken in UTC, a page fetch
  takes the next scripted page (and finds no orders once the script is over), an order
  look-up reads a table, a request takes the next scripted response (and a plain
  \<open>200\<close> page once the script is over), and writes and bot calls take the next scripted
  outcome (and succeed once the script is over).
\<close>

record script =
  clock :: datetime
  sales_pages :: "(exn + sales_result) list"
  order_table :: "(pystr \<times> order_status) list"
  responses :: "(exn + response) list"
  write_outcomes :: "write_outcome list"
  bot_outcomes :: "exn option list"

text \<open>Days since 1970-01-01 of a date of the proleptic Gregorian calendar, and back.\<close>

definition days_from_civil :: "int \<Rightarrow> int \<Rightarrow> int \<Rightarrow> int" where
  "days_from_civil y m d =
     (let y' = (if m \<le> 2 then y - 1 else y);
          era = y' div 400;
          yoe = y' - era * 400;
          doy = (153 * ((m + 9) mod 12) + 2) div 5 + d - 1;
          doe = yoe * 365 + yoe div 4 - yoe div 100 + doy
      in era * 146097 + doe - 719468)"

definition civil_from_days :: "int \<Rightarrow> int \<times> int \<times> int" where
  "civil_from_days z =
     (let z' = z + 719468;
          era = z' div 146097;
          doe = z' - era * 146097;
          yoe = (doe - doe div 1460 + doe div 36524 - doe div 146096) div 365;
          doy = doe - (365 * yoe + yoe div 4 - yoe div 100);
          mp = (5 * doy + 2) div 153;
          d = doy - (153 * mp + 2) div 5 + 1;
          m = (if mp < 10 then mp + 3 else mp - 9)
      in ((if m \<le> 2 then yoe + era * 400 + 1 else yoe + era * 400), m, d))"

definition utc_seconds :: "datetime \<Rightarrow> int" where
  "utc_seconds d =
     days_from_civil (dt_year d) (dt_month d) (dt_day d) * 86400
       + dt_hour d * 3600 + dt_minute d * 60 + dt_second d"

definition utc_timestamp :: "datetime \<Rightarrow> real" where
  "utc_timestamp d = of_int (utc_seconds d) + of_int (dt_microsecond d) / 1000000"

definition utc_timedelta_sub :: "datetime \<Rightarrow> int \<Rightarrow> int \<Rightarrow> exn + datetime" where
  "utc_timedelta_sub d days hours =
     (let n = utc_seconds d - days * 86400 - hours * 3600;
          r = n mod 86400
      in case civil_from_days (n div 86400) of
           (y, m, dd) \<Rightarrow>
             (let d' = \<lparr>dt_year = y, dt_month = m, dt_day = dd, dt_hour = r div 3600,
                        dt_minute = (r mod 3600) div 60, dt_second = r mod 60,
                        dt_microsecond = dt_microsecond d\<rparr>
              in if valid_datetime d' then Inr d' else Inl OverflowError))"

text \<open>\<open>int\<close> on a string of ASCII digits with an optional sign, blanks around it allowed.\<close>

fun digits_value :: "pystr \<Rightarrow> int \<Rightarrow> exn + int" where
  "digits_value [] acc = Inr acc"
| "digits_value (c # cs) acc =
     (if 48 \<le> c \<and> c \<le> 57 then digits_value cs (acc * 10 + int c - 48) else Inl ValueError)"

definition ascii_int :: "pystr \<Rightarrow> exn + int" where
  "ascii_int t =
     (case strip t of
        [] \<Rightarrow> Inl ValueError
      | c # cs \<Rightarrow>
          if c = 45 then
            (if cs = [] then Inl ValueError
             else (case digits_value cs 0 of Inl e \<Rightarrow> Inl e | Inr n \<Rightarrow> Inr (- n)))
          else if c = 43 then (if cs = [] then Inl ValueError else digits_value cs 0)
          else digits_value (c # cs) 0)"

text \<open>\<open>lower\<close> on the Latin and the Cyrillic capitals, the other characters kept.\<close>

definition lower_char :: "nat \<Rightarrow> nat" where
  "lower_char c =
     (if 65 \<le> c \<and> c \<le> 90 then c + 32
      else if 1040 \<le> c \<and> c \<le> 1071 then c + 32
      else if 1024 \<le> c \<and> c \<le> 1039 then c + 80
      else c)"

text \<open>The pages of the scripted portal, told apart by their content.\<close>

definition ok_response :: response where
  "ok_response = \<lparr>status_code = 200, location = None, cookie_phpsessid = Some (cp ''sess''),
                   content = cp ''ok''\<rparr>"

definition redirect_to :: "pystr \<Rightarrow> response" where
  "redirect_to l = \<lparr>status_code = 302, location = Some l, cookie_phpsessid = None,
                     content = []\<rparr>"

definition success_json :: json where
  "success_json =
     JObj [(cp ''action'', JStr (cp ''message'')),
           (cp ''message'', JStr (1047 # tl success_phrase)),
           (cp ''url'', JStr (cp ''/tickets/55''))]"

definition error_json :: json where
  "error_json = JObj [(cp ''action'', JStr (cp ''error'')), (cp ''message'', JStr (cp ''...''))]"

definition next_of :: "'a \<Rightarrow> 'a list \<Rightarrow> 'a \<times> 'a list" where
  "next_of dflt xs = (case xs of [] \<Rightarrow> (dflt, []) | x # rest \<Rightarrow> (x, rest))"

definition scripted :: "script env" where
  "scripted =
     \<lparr>datetime_now = (\<lambda>w. (clock w, w)),
      dt_timestamp = (\<lambda>d. Inr (utc_timestamp d)),
      timedelta_sub = utc_timedelta_sub,
      strptime = (\<lambda>text fmt. Inl ValueError),
      int_of_str = ascii_int,
      str_lower = map lower_char,
      acc_get_sales = (\<lambda>start w.
         case next_of (Inr (Some (None, []))) (sales_pages w) of
           (r, rest) \<Rightarrow> (r, w\<lparr>sales_pages := rest\<rparr>)),
      acc_get_order = (\<lambda>i w.
         case map_of (order_table w) i of
           None \<Rightarrow> (Inl RequestException, w)
         | Some st \<Rightarrow> (Inr st, w)),
      asyncio_sleep = (\<lambda>n w. w),
      requests_call = (\<lambda>rq w.
         case next_of (Inr ok_response) (responses w) of
           (r, rest) \<Rightarrow> (r, w\<lparr>responses := rest\<rparr>)),
      app_config_of = (\<lambda>r.
         if content r = cp ''ok'' then Inr (JObj [(cp ''csrfToken'', JStr (cp ''csrf''))])
         else Inl AttributeError),
      ticket_token_of = (\<lambda>r.
         if content r = cp ''ok'' then Inr (JStr (cp ''token'')) else Inl AttributeError),
      json_of = (\<lambda>r.
         if content r = cp ''ok'' then Inr success_json
         else if content r = cp ''error'' then Inr error_json
         else Inl ValueError),
      file_write = (\<lambda>st w.
         case next_of Written (write_outcomes w) of
           (r, rest) \<Rightarrow> (r, w\<lparr>write_outcomes := rest\<rparr>)),
      bot_call = (\<lambda>c w.
         case next_of None (bot_outcomes w) of
           (r, rest) \<Rightarrow> (r, w\<lparr>bot_outcomes := rest\<rparr>))\<rparr>"

text \<open>
  A run on 15 January 2024, 10:00: one page with the orders A, B, C and D, placed 30, 2,
  40 and 50 hours before, D being in the ledger already, and all of them still paid.
\<close>

definition moment :: "int \<Rightarrow> int \<Rightarrow> int \<Rightarrow> int \<Rightarrow> int \<Rightarrow> datetime" where
  "moment y m d h mi = \<lparr>dt_year = y, dt_month = m, dt_day = d, dt_hour = h, dt_minute = mi,
                    dt_second = 0, dt_microsecond = 0\<rparr>"

definition page1 :: "order_data list" where
  "page1 =
     [\<lparr>order_id = cp ''A'', order_date = DateTime (moment 2024 1 14 4 0)\<rparr>,
      \<lparr>order_id = cp ''B'', order_date = DateTime (moment 2024 1 15 8 0)\<rparr>,
      \<lparr>order_id = cp ''C'', order_date = DateTime (moment 2024 1 13 18 0)\<rparr>,
      \<lparr>order_id = cp ''D'', order_date = DateTime (moment 2024 1 13 8 0)\<rparr>]"

definition world1 :: script where
  "world1 =
     \<lparr>clock = moment 2024 1 15 10 0,
      sales_pages = [Inr (Some (None, page1))],
      order_table = [(cp ''A'', PAID), (cp ''B'', PAID), (cp ''C'', PAID), (cp ''D'', PAID)],
      responses = [],
      write_outcomes = [],
      bot_outcomes = []\<rparr>"

definition settings1 :: settings where
  "settings1 = \<lparr>order_age_hours = 24, max_orders_in_ticket = 10, sent_order_ids = [cp ''D'']\<rparr>"

definition state1 :: "script state" where
  "state1 = \<lparr>SETTINGS = settings1, disk = Dump settings1, world = world1, trace = []\<rparr>"

definition account1 :: account where
  "account1 = \<lparr>golden_key = cp ''key'', user_agent = cp ''agent'', requests_timeout = 10,
               username = cp ''seller''\<rparr>"

text \<open>
  A marketplace that never runs out of pages: every page holds the order D, which is old
  and in the ledger, and a cursor for the next page.
\<close>

definition endless_page :: "exn + sales_result" where
  "endless_page =
     Inr (Some (Some (cp ''next''),
                [\<lparr>order_id = cp ''D'', order_date = DateTime (moment 2024 1 13 8 0)\<rparr>]))"

definition state_endless :: "script state" where
  "state_endless = state1\<lparr>world := world1\<lparr>sales_pages := replicate 12 endless_page\<rparr>\<rparr>"

text \<open>
  The client of the support portal for that account, a portal that redirects twice, the
  second time to the root path, and a portal that redirects for ever.
\<close>

definition api1 :: support_api where
  "api1 = FunPaySupportAPI account1"

definition state_hops :: "script state" where
  "state_hops =
     state1\<lparr>world := world1\<lparr>responses :=
        [Inr (redirect_to (cp ''/a'')), Inr (redirect_to (cp ''/''))]\<rparr>\<rparr>"

definition state_loop :: "script state" where
  "state_loop =
     state1\<lparr>world := world1\<lparr>responses := replicate 10 (Inr (redirect_to (cp ''/a'')))\<rparr>\<rparr>"

text \<open>A portal whose first answer is a network error.\<close>

definition state_raise :: "script state" where
  "state_raise = state1\<lparr>world := world1\<lparr>responses := [Inl RequestException]\<rparr>\<rparr>"

text \<open>The same run when every order is closed already: no order can be reported.\<close>

definition state_closed :: "script state" where
  "state_closed =
     state1\<lparr>world := world1\<lparr>order_table :=
        [(cp ''A'', CLOSED), (cp ''B'', CLOSED), (cp ''C'', CLOSED), (cp ''D'', CLOSED)]\<rparr>\<rparr>"

text \<open>
  Two runs in a row with one order in a ticket: the marketplace shows the same page to
  both scans.
\<close>

definition settings2 :: settings where
  "settings2 = \<lparr>order_age_hours = 24, max_orders_in_ticket = 1, sent_order_ids = [cp ''D'']\<rparr>"

definition state2 :: "script state" where
  "state2 =
     \<lparr>SETTINGS = settings2, disk = Dump settings2,
      world = world1\<lparr>sales_pages := [Inr (Some (None, page1)), Inr (Some (None, page1))]\<rparr>,
      trace = []\<rparr>"

text \<open>A response of the portal whose \<open>url\<close> is a list that holds the ticket path.\<close>

definition list_url_json :: json where
  "list_url_json =
     JObj [(cp ''action'', JStr (cp ''message'')),
           (cp ''message'', JStr (1047 # tl success_phrase)),
           (cp ''url'', JArr [JStr (cp ''/tickets/'')])]"

text \<open>Date strings: the relative prefix twice, the relative word with no \<open>at\<close>, a word.\<close>

definition doubled_today :: pystr where
  "doubled_today = today_prefix @ at_word @ today_prefix @ at_word @ cp ''12:30''"

definition today_glued :: pystr where
  "today_glued = today_prefix @ cp ''12:30''"

definition plain_word :: pystr where
  "plain_word = cp ''soon''"
section \<open>The scanner\<close>

lemma emit_simps [simp]:
  "SETTINGS (emit ev w s) = SETTINGS s" "disk (emit ev w s) = disk s"
  "trace (emit ev w s) = trace s @ [ev]" "world (emit ev w s) = w"
  by (simp_all add: emit_def)

lemma fetches_append [simp]: "fetches (xs @ ys) = fetches xs + fetches ys"
  by (induction xs rule: fetches.induct) simp_all

lemma saves_append [simp]: "saves (xs @ ys) = saves xs @ saves ys"
  by (induction xs rule: saves.induct) simp_all

lemma lookups_append [simp]: "lookups (xs @ ys) = lookups xs @ lookups ys"
  by (induction xs rule: lookups.induct) simp_all

lemma requests_append [simp]: "requests (xs @ ys) = requests xs @ requests ys"
  by (induction xs rule: requests.induct) simp_all

lemma untouched_refl [simp]: "untouched s s"
  by (simp add: untouched_def)

lemma untouched_trans: "untouched a b \<Longrightarrow> untouched b c \<Longrightarrow> untouched a c"
  by (simp add: untouched_def)

lemma do_now_frame:
  "do_now E s = (d, s') \<Longrightarrow> SETTINGS s' = SETTINGS s \<and> disk s' = disk s \<and> trace s' = trace s @ [EvNow]"
  by (auto simp: do_now_def split: prod.splits)

lemma parse_try_frame:
  "parse_try E now str s = (r, s') \<Longrightarrow>
     SETTINGS s' = SETTINGS s \<and> disk s' = disk s \<and> fetches (trace s') = fetches (trace s)
       \<and> saves (trace s') = saves (trace s)"
  by (auto simp: parse_try_def split: if_splits sum.splits prod.splits dest!: do_now_frame)

lemma parse_funpay_date_frame:
  "parse_funpay_date E d s = (r, s') \<Longrightarrow>
     SETTINGS s' = SETTINGS s \<and> disk s' = disk s \<and> fetches (trace s') = fetches (trace s)
       \<and> saves (trace s') = saves (trace s)"
  by (auto simp: parse_funpay_date_def split: date_obj.splits sum.splits prod.splits
      dest!: do_now_frame parse_try_frame)

lemma scan_orders_frame:
  "scan_orders E cutoff max_count os old batch s = (r, s') \<Longrightarrow>
     SETTINGS s' = SETTINGS s \<and> disk s' = disk s \<and> fetches (trace s') = fetches (trace s)
       \<and> saves (trace s') = saves (trace s)"
proof (induction os arbitrary: old batch s)
  case Nil
  then show ?case by simp
next
  case (Cons od rest)
  obtain p s1 where p: "parse_funpay_date E (order_date od) s = (p, s1)"
    by (cases "parse_funpay_date E (order_date od) s")
  note f = parse_funpay_date_frame[OF p]
  show ?case
  proof (cases p)
    case (Inl e)
    with Cons.prems p f show ?thesis by simp
  next
    case (Inr t)
    with Cons.prems p f Cons.IH show ?thesis
      by (auto simp: Let_def split: if_splits)
  qed
qed

lemma scan_orders_disjoint:
  "scan_orders E cutoff max_count os old batch s = (Inr (old', batch'), s') \<Longrightarrow>
     set old \<inter> set (sent_order_ids (SETTINGS s)) = {} \<Longrightarrow>
     set old' \<inter> set (sent_order_ids (SETTINGS s)) = {}"
proof (induction os arbitrary: old batch s)
  case Nil
  then show ?case by simp
next
  case (Cons od rest)
  obtain p s1 where p: "parse_funpay_date E (order_date od) s = (p, s1)"
    by (cases "parse_funpay_date E (order_date od) s")
  note f = parse_funpay_date_frame[OF p]
  show ?case
  proof (cases p)
    case (Inl e)
    with Cons.prems p show ?thesis by simp
  next
    case (Inr t)
    with Cons.prems p f Cons.IH[of _ _ s1] show ?thesis
      by (auto simp: Let_def split: if_splits)
  qed
qed


lemma do_get_sales_frame:
  "do_get_sales E c s = (r, s') \<Longrightarrow>
     SETTINGS s' = SETTINGS s \<and> disk s' = disk s \<and> fetches (trace s') = Suc (fetches (trace s))
       \<and> saves (trace s') = saves (trace s)"
  by (auto simp: do_get_sales_def split: prod.splits)

lemma do_sleep_frame [simp]:
  "SETTINGS (do_sleep E n s) = SETTINGS s" "disk (do_sleep E n s) = disk s"
  "trace (do_sleep E n s) = trace s @ [EvSleep n]"
  by (simp_all add: do_sleep_def)

lemma scan_iteration_frame:
  assumes "scan_iteration E cutoff max_count v s = (fl, s')"
  shows "SETTINGS s' = SETTINGS s \<and> disk s' = disk s
         \<and> fetches (trace s') = Suc (fetches (trace s))
         \<and> saves (trace s') = saves (trace s)"
proof -
  obtain r s1 where g: "do_get_sales E (start_from v) s = (r, s1)"
    by (cases "do_get_sales E (start_from v) s")
  note f1 = do_get_sales_frame[OF g]
  show ?thesis
  proof (cases r)
    case (Inl e)
    with assms g f1 show ?thesis by (simp add: scan_iteration_def)
  next
    case (Inr result)
    show ?thesis
    proof (cases result)
      case None
      with assms g f1 Inr show ?thesis by (simp add: scan_iteration_def)
    next
      case (Some pg)
      obtain nxt orders where pg: "pg = (nxt, orders)" by (cases pg)
      obtain q s2 where so: "scan_orders E cutoff max_count orders (old_orders_ids v) [] s1 = (q, s2)"
        by (cases "scan_orders E cutoff max_count orders (old_orders_ids v) [] s1")
      note f2 = scan_orders_frame[OF so]
      from assms g f1 Inr Some pg so f2 show ?thesis
        by (auto simp: scan_iteration_def Let_def split: if_splits sum.splits prod.splits)
    qed
  qed
qed

lemma scan_iteration_vars:
  assumes "scan_iteration E cutoff max_count v s = (fl, s')"
    and "fl = Continue v' \<or> fl = Break v'"
    and "set (old_orders_ids v) \<inter> set (sent_order_ids (SETTINGS s)) = {}"
  shows "set (old_orders_ids v') \<inter> set (sent_order_ids (SETTINGS s)) = {}
         \<and> (fl = Continue v' \<longrightarrow> page_count v' = Suc (page_count v))"
proof -
  obtain r s1 where g: "do_get_sales E (start_from v) s = (r, s1)"
    by (cases "do_get_sales E (start_from v) s")
  note f1 = do_get_sales_frame[OF g]
  show ?thesis
  proof (cases r)
    case (Inl e)
    with assms g show ?thesis by (auto simp: scan_iteration_def)
  next
    case (Inr result)
    show ?thesis
    proof (cases result)
      case None
      with assms g Inr show ?thesis by (auto simp: scan_iteration_def)
    next
      case (Some pg)
      obtain nxt orders where pg: "pg = (nxt, orders)" by (cases pg)
      obtain q s2 where so: "scan_orders E cutoff max_count orders (old_orders_ids v) [] s1 = (q, s2)"
        by (cases "scan_orders E cutoff max_count orders (old_orders_ids v) [] s1")
      show ?thesis
      proof (cases q)
        case (Inl e)
        with assms g Inr Some pg so show ?thesis
          by (auto simp: scan_iteration_def Let_def split: if_splits)
      next
        case (Inr ob)
        obtain old' batch where ob: "ob = (old', batch)" by (cases ob)
        from so Inr ob assms(3) f1
        have "set old' \<inter> set (sent_order_ids (SETTINGS s)) = {}"
          using scan_orders_disjoint[of E cutoff max_count orders "old_orders_ids v" "[]" s1 old' batch s2]
          by simp
        with assms g \<open>r = Inr result\<close> Some pg so Inr ob show ?thesis
          by (auto simp: scan_iteration_def Let_def split: if_splits)
      qed
    qed
  qed
qed

lemma scan_loop_frame:
  "scan_loop E cutoff max_count v s = (r, s') \<Longrightarrow>
     SETTINGS s' = SETTINGS s \<and> disk s' = disk s \<and> saves (trace s') = saves (trace s)"
proof (induction E cutoff max_count v s rule: scan_loop.induct)
  case (1 E cutoff max_count v s)
  show ?case
  proof (cases "int (length (old_orders_ids v)) < max_count \<and> page_count v < max_pages")
    case False
    with "1.prems" show ?thesis by simp
  next
    case True
    obtain fl s1 where it: "scan_iteration E cutoff max_count v s = (fl, s1)"
      by (cases "scan_iteration E cutoff max_count v s")
    note f = scan_iteration_frame[OF it]
    show ?thesis
    proof (cases fl)
      case (Continue v1)
      with "1.prems" True it have "scan_loop E cutoff max_count v1 s1 = (r, s')" by simp
      with "1.IH"[OF True it[symmetric] Continue] f show ?thesis by simp
    next
      case (Break v1)
      with "1.prems" True it f show ?thesis by simp
    next
      case (Raise e)
      with "1.prems" True it f show ?thesis by simp
    qed
  qed
qed


lemma scan_loop_disjoint:
  "scan_loop E cutoff max_count v s = (Inr v', s') \<Longrightarrow>
     set (old_orders_ids v) \<inter> set (sent_order_ids (SETTINGS s)) = {} \<Longrightarrow>
     set (old_orders_ids v') \<inter> set (sent_order_ids (SETTINGS s)) = {}"
proof (induction E cutoff max_count v s rule: scan_loop.induct)
  case (1 E cutoff max_count v s)
  show ?case
  proof (cases "int (length (old_orders_ids v)) < max_count \<and> page_count v < max_pages")
    case False
    with "1.prems" show ?thesis by simp
  next
    case True
    obtain fl s1 where it: "scan_iteration E cutoff max_count v s = (fl, s1)"
      by (cases "scan_iteration E cutoff max_count v s")
    note f = scan_iteration_frame[OF it]
    show ?thesis
    proof (cases fl)
      case (Continue v1)
      with "1.prems" True it have run: "scan_loop E cutoff max_count v1 s1 = (Inr v', s')" by simp
      from scan_iteration_vars[OF it _ "1.prems"(2), of v1] Continue
      have "set (old_orders_ids v1) \<inter> set (sent_order_ids (SETTINGS s)) = {}" by simp
      with "1.IH"[OF True it[symmetric] Continue run] f show ?thesis by simp
    next
      case (Break v1)
      with "1.prems" True it have "v' = v1" by simp
      with scan_iteration_vars[OF it _ "1.prems"(2), of v1] Break show ?thesis by simp
    next
      case (Raise e)
      with "1.prems" True it show ?thesis by simp
    qed
  qed
qed

lemma scan_loop_fetches:
  "scan_loop E cutoff max_count v s = (r, s') \<Longrightarrow>
     fetches (trace s') \<le> fetches (trace s) + (max_pages - page_count v)"
proof (induction E cutoff max_count v s rule: scan_loop.induct)
  case (1 E cutoff max_count v s)
  show ?case
  proof (cases "int (length (old_orders_ids v)) < max_count \<and> page_count v < max_pages")
    case False
    with "1.prems" show ?thesis by simp
  next
    case True
    obtain fl s1 where it: "scan_iteration E cutoff max_count v s = (fl, s1)"
      by (cases "scan_iteration E cutoff max_count v s")
    note f = scan_iteration_frame[OF it]
    show ?thesis
    proof (cases fl)
      case (Continue v1)
      with "1.prems" True it have run: "scan_loop E cutoff max_count v1 s1 = (r, s')" by simp
      from it Continue have pc: "page_count v1 = Suc (page_count v)"
        by (auto simp: scan_iteration_def Let_def
            split: prod.splits sum.splits option.splits if_splits)
      from f have "fetches (trace s1) = Suc (fetches (trace s))" by simp
      with "1.IH"[OF True it[symmetric] Continue run] pc True show ?thesis by arith
    next
      case (Break v1)
      with "1.prems" True it have "s' = s1" by simp
      with f True show ?thesis by arith
    next
      case (Raise e)
      with "1.prems" True it have "s' = s1" by simp
      with f True show ?thesis by arith
    qed
  qed
qed

lemma length_slice_to: "0 \<le> n \<Longrightarrow> int (length (slice_to xs n)) \<le> n"
  by (simp add: slice_to_def)

lemma set_slice_to: "set (slice_to xs n) \<subseteq> set xs"
  by (auto simp: slice_to_def dest: in_set_takeD)

text \<open>The ways through the scanner: it raises before the loop, or it runs the loop.\<close>

lemma get_old_orders_cases:
  assumes "get_old_orders_for_ticket E age_hours max_count s = (r, s')"
  obtains (early) now e where "do_now E s = (now, s')" and "r = Inl e"
  | (loop) now s0 cutoff q where "do_now E s = (now, s0)"
      and "scan_loop E cutoff max_count
             \<lparr>old_orders_ids = [], start_from = None, page_count = 0\<rparr> s0 = (q, s')"
      and "r = map_sum id (\<lambda>v. slice_to (old_orders_ids v) max_count) q"
  using assms unfolding get_old_orders_for_ticket_def
  by (auto simp del: scan_loop.simps split: prod.splits sum.splits)

lemma get_old_orders_disjoint:
  assumes "get_old_orders_for_ticket E age_hours max_count s = (Inr ids, s')"
  shows "set ids \<inter> set (sent_order_ids (SETTINGS s)) = {}"
  using assms
proof (cases rule: get_old_orders_cases)
  case (early now e)
  then show ?thesis by simp
next
  case (loop now s0 cutoff q)
  note f0 = do_now_frame[OF loop(1)]
  from loop(3) obtain v where q: "q = Inr v" and ids: "ids = slice_to (old_orders_ids v) max_count"
    by (cases q) auto
  from scan_loop_disjoint[OF loop(2)[unfolded q]] f0
  have "set (old_orders_ids v) \<inter> set (sent_order_ids (SETTINGS s)) = {}" by simp
  with ids set_slice_to[of "old_orders_ids v" max_count] show ?thesis by auto
qed

lemma get_old_orders_untouched:
  assumes "get_old_orders_for_ticket E age_hours max_count s = (r, s')"
  shows "untouched s s'"
  using assms
proof (cases rule: get_old_orders_cases)
  case (early now e)
  from do_now_frame[OF early(1)] show ?thesis by (simp add: untouched_def)
next
  case (loop now s0 cutoff q)
  from do_now_frame[OF loop(1)] scan_loop_frame[OF loop(2)] show ?thesis
    by (simp add: untouched_def)
qed

lemma get_old_orders_fetches:
  assumes "get_old_orders_for_ticket E age_hours max_count s = (r, s')"
  shows "fetches (trace s') \<le> fetches (trace s) + 10"
  using assms
proof (cases rule: get_old_orders_cases)
  case (early now e)
  from do_now_frame[OF early(1)] show ?thesis by simp
next
  case (loop now s0 cutoff q)
  from do_now_frame[OF loop(1)] scan_loop_fetches[OF loop(2)] show ?thesis
    by (simp add: max_pages_def)
qed

text \<open>
  Claim C1. Whatever the ledger and whatever the marketplace answers, a list that the
  scanner returns has no order id that is in \<open>sent_order_ids\<close> when the scan starts.
\<close>

theorem scanner_skips_sent_orders:
  assumes "get_old_orders_for_ticket E age_hours max_count s = (Inr ids, s')"
  shows "set ids \<inter> set (sent_order_ids (SETTINGS s)) = {}"
  using assms by (rule get_old_orders_disjoint)

theorem scanner_skips_sent_orders_witness:
  "fst (get_old_orders_for_ticket scripted 24 10 state1) = Inr [cp ''A'', cp ''C'']
   \<and> set [cp ''A'', cp ''C''] \<inter> set (sent_order_ids (SETTINGS state1)) = {}"
proof -
  have run: "fst (get_old_orders_for_ticket scripted 24 10 state1) = Inr [cp ''A'', cp ''C'']"
    by code_simp
  then have "get_old_orders_for_ticket scripted 24 10 state1
      = (Inr [cp ''A'', cp ''C''], snd (get_old_orders_for_ticket scripted 24 10 state1))"
    by (simp add: prod_eq_iff)
  from scanner_skips_sent_orders[OF this] run show ?thesis by simp
qed

text \<open>
  Claim C6. For a batch size between 1 and 50, a list that the scanner returns has at
  most that many order ids.
\<close>

theorem scanner_batch_bound:
  assumes "1 \<le> max_batch" and "max_batch \<le> 50"
    and "get_old_orders_for_ticket E age_hours max_batch s = (Inr ids, s')"
  shows "int (length ids) \<le> max_batch"
proof -
  from assms(3) obtain xs where "ids = slice_to xs max_batch"
    by (auto simp: get_old_orders_for_ticket_def split: sum.splits prod.splits)
  with assms(1) length_slice_to[of max_batch xs] show ?thesis by simp
qed

theorem scanner_batch_bound_witness:
  "(1::int) \<le> 1 \<and> (1::int) \<le> 50
   \<and> fst (get_old_orders_for_ticket scripted 24 1 state1) = Inr [cp ''A'']
   \<and> int (length [cp ''A'']) \<le> 1"
proof -
  have run: "fst (get_old_orders_for_ticket scripted 24 1 state1) = Inr [cp ''A'']"
    by code_simp
  then have "get_old_orders_for_ticket scripted 24 1 state1
      = (Inr [cp ''A''], snd (get_old_orders_for_ticket scripted 24 1 state1))"
    by (simp add: prod_eq_iff)
  from scanner_batch_bound[OF _ _ this] run show ?thesis by simp
qed

text \<open>
  Claim C7. Whatever the age, the batch size and the answers of the marketplace, the
  scanner returns after at most 10 calls of \<open>get_sales\<close>: the log of the state it
  returns holds at most 10 page fetches more than the log it started with.
\<close>

theorem scanner_page_ceiling:
  "fetches (trace (snd (get_old_orders_for_ticket E age_hours max_count s)))
     \<le> fetches (trace s) + 10"
  by (rule get_old_orders_fetches[of E age_hours max_count s
        "fst (get_old_orders_for_ticket E age_hours max_count s)"]) simp

theorem scanner_page_ceiling_witness:
  "fetches (trace (snd (get_old_orders_for_ticket scripted 24 10 state_endless))) = 10
   \<and> fetches (trace state_endless) = 0"
proof -
  have "fetches (trace state_endless) = 0" by code_simp
  moreover have "10 \<le> fetches (trace (snd (get_old_orders_for_ticket scripted 24 10 state_endless)))"
    by code_simp
  ultimately show ?thesis
    using scanner_page_ceiling[of scripted 24 10 state_endless] by simp
qed

section \<open>The support portal and the orchestrator\<close>

lemma do_request_frame:
  "do_request E rq s = (r, s') \<Longrightarrow>
     untouched s s' \<and> lookups (trace s') = lookups (trace s)
     \<and> requests (trace s') = requests (trace s) @ [(rq, r)]"
  by (auto simp: do_request_def untouched_def split: prod.splits)

lemma do_get_order_frame:
  "do_get_order E i s = (r, s') \<Longrightarrow>
     untouched s s' \<and> lookups (trace s') = lookups (trace s) @ [i]"
  by (auto simp: do_get_order_def untouched_def split: prod.splits)

lemma do_sleep_untouched [simp]:
  "untouched s (do_sleep E n s)" "lookups (trace (do_sleep E n s)) = lookups (trace s)"
  by (simp_all add: untouched_def)

lemma do_bot_frame: "do_bot E c s = (r, s') \<Longrightarrow> untouched s s'"
  by (auto simp: do_bot_def untouched_def split: prod.splits)

lemma edit_frame: "edit E text s = (r, s') \<Longrightarrow> untouched s s'"
  by (auto simp: edit_def split: prod.splits option.splits
      dest!: do_bot_frame intro: untouched_trans)

text \<open>
  What the loop of the wrapper does, as a statement on the requests it logs: they form a
  chain from \<open>link\<close> of at most \<open>n\<close> calls; a raised exception and a response at a
  \<open>break\<close> are the answer to the last of them, the response being one on which the
  loop stops; and the loop that runs to its end made \<open>n\<close> calls, the last of them
  answered by a redirect that it would have followed.
\<close>

lemma follow_chain:
  "follow E rq link n s = (res, s') \<Longrightarrow>
     untouched s s' \<and> lookups (trace s') = lookups (trace s) \<and>
     (\<exists>calls. requests (trace s') = requests (trace s) @ calls \<and> chain link calls
        \<and> length calls \<le> n
        \<and> (\<forall>c\<in>set calls. fst c = rq\<lparr>req_url := req_url (fst c), allow_redirects := Some False\<rparr>)
        \<and> (case res of
              Inl e \<Rightarrow> calls \<noteq> [] \<and> snd (last calls) = Inl e
            | Inr (Some r) \<Rightarrow> calls \<noteq> [] \<and> snd (last calls) = Inr r \<and> stops r
            | Inr None \<Rightarrow> length calls = n
                \<and> (calls \<noteq> [] \<longrightarrow> (\<exists>r. snd (last calls) = Inr r \<and> \<not> stops r))))"
proof (induction n arbitrary: link s)
  case 0
  then show ?case by auto
next
  case (Suc n)
  let ?rq = "rq\<lparr>req_url := link, allow_redirects := Some False\<rparr>"
  obtain a s1 where d: "do_request E ?rq s = (a, s1)" by (cases "do_request E ?rq s")
  note f = do_request_frame[OF d]
  have first: "req_url ?rq = link" "allow_redirects ?rq = Some False"
    "?rq = rq\<lparr>req_url := req_url ?rq, allow_redirects := Some False\<rparr>"
    by simp_all
  show ?case
  proof (cases a)
    case (Inl e)
    with Suc.prems d have "res = Inl e" "s' = s1" by simp_all
    with f Inl first show ?thesis
      by (intro conjI exI[of _ "[(?rq, a)]"]) simp_all
  next
    case (Inr r)
    show ?thesis
    proof (cases "stops r")
      case True
      with Suc.prems d Inr have "res = Inr (Some r)" "s' = s1" by simp_all
      with f Inr True first show ?thesis
        by (intro conjI exI[of _ "[(?rq, a)]"]) simp_all
    next
      case False
      show ?thesis
      proof (cases "location r")
        case None
        with Suc.prems d Inr False have "res = Inl KeyError" by simp
        from None False show ?thesis by (simp add: stops_def truthy_def)
      next
        case (Some l)
        with Suc.prems d Inr False have rec: "follow E rq l n s1 = (res, s')" by simp
        from Suc.IH[OF rec] obtain calls where
          u: "untouched s1 s'" and lk: "lookups (trace s') = lookups (trace s1)"
          and rq: "requests (trace s') = requests (trace s1) @ calls"
          and ch: "chain l calls" and len: "length calls \<le> n"
          and shape: "\<forall>c\<in>set calls. fst c = rq\<lparr>req_url := req_url (fst c), allow_redirects := Some False\<rparr>"
          and out: "(case res of
              Inl e \<Rightarrow> calls \<noteq> [] \<and> snd (last calls) = Inl e
            | Inr (Some r) \<Rightarrow> calls \<noteq> [] \<and> snd (last calls) = Inr r \<and> stops r
            | Inr None \<Rightarrow> length calls = n
                \<and> (calls \<noteq> [] \<longrightarrow> (\<exists>r. snd (last calls) = Inr r \<and> \<not> stops r)))"
          by blast
        let ?calls = "(?rq, a) # calls"
        have "requests (trace s') = requests (trace s) @ ?calls" using f rq by simp
        moreover have "chain link ?calls" using ch Inr False Some by simp
        moreover have "length ?calls \<le> Suc n" using len by simp
        moreover have "\<forall>c\<in>set ?calls. fst c = rq\<lparr>req_url := req_url (fst c), allow_redirects := Some False\<rparr>"
          using shape first by simp
        moreover have "(case res of
              Inl e \<Rightarrow> ?calls \<noteq> [] \<and> snd (last ?calls) = Inl e
            | Inr (Some r) \<Rightarrow> ?calls \<noteq> [] \<and> snd (last ?calls) = Inr r \<and> stops r
            | Inr None \<Rightarrow> length ?calls = Suc n
                \<and> (?calls \<noteq> [] \<longrightarrow> (\<exists>r. snd (last ?calls) = Inr r \<and> \<not> stops r)))"
          using out Inr False by (auto split: sum.splits option.splits)
        moreover have "untouched s s'" using f u by (blast intro: untouched_trans)
        moreover have "lookups (trace s') = lookups (trace s)" using f lk by simp
        ultimately show ?thesis by blast
      qed
    qed
  qed
qed

lemma api_method_unfold:
  "\<exists>rq. req_method rq = meth \<and> req_data rq = payload \<and> req_url rq = url
     \<and> allow_redirects rq = None
     \<and> api_method E self meth url headers payload excl s =
         (case follow E rq url 10 s of
            (Inl e, s1) \<Rightarrow> (Inl e, s1)
          | (Inr (Some r), s1) \<Rightarrow> (Inr r, s1)
          | (Inr None, s1) \<Rightarrow> do_request E rq s1)"
  unfolding api_method_def Let_def
  apply (rule exI)
  apply (intro conjI)
      prefer 5
      apply (rule refl)
     apply simp_all
  done

lemma api_method_frame:
  assumes "api_method E self meth url headers payload excl s = (res, s')"
  shows "untouched s s' \<and> lookups (trace s') = lookups (trace s)"
proof -
  obtain rq where run: "(case follow E rq url 10 s of
           (Inl e, s1) \<Rightarrow> (Inl e, s1)
         | (Inr (Some r), s1) \<Rightarrow> (Inr r, s1)
         | (Inr None, s1) \<Rightarrow> do_request E rq s1) = (res, s')"
    using assms api_method_unfold[of meth payload url E self headers excl s] by auto
  obtain a s1 where f: "follow E rq url 10 s = (a, s1)" by (cases "follow E rq url 10 s")
  from follow_chain[OF f] have u: "untouched s s1" "lookups (trace s1) = lookups (trace s)"
    by simp_all
  show ?thesis
  proof (cases a)
    case (Inl e)
    with run f u show ?thesis by simp
  next
    case (Inr opt)
    show ?thesis
    proof (cases opt)
      case (Some r)
      with run f u Inr show ?thesis by simp
    next
      case None
      with run f Inr have "do_request E rq s1 = (res, s')" by simp
      from do_request_frame[OF this] u show ?thesis by (auto intro: untouched_trans)
    qed
  qed
qed

lemma get_frame:
  assumes "get E self s = (res, s')"
  shows "untouched s s' \<and> lookups (trace s') = lookups (trace s)"
proof -
  obtain a s1 where m1: "api_method E self (cp ''get'') support_root [] [] True s = (a, s1)"
    by (cases "api_method E self (cp ''get'') support_root [] [] True s")
  note f1 = api_method_frame[OF m1]
  show ?thesis
  proof (cases a)
    case (Inl e)
    with assms m1 f1 show ?thesis by (simp add: get_def)
  next
    case (Inr r)
    let ?self1 = "self\<lparr>phpsessid :=
                (case cookie_phpsessid r of None \<Rightarrow> phpsessid self | Some c \<Rightarrow> c)\<rparr>"
    obtain b s2 where
      m2: "api_method E ?self1 (cp ''get'') support_root [] [] False s1 = (b, s2)"
      by (cases "api_method E ?self1 (cp ''get'') support_root [] [] False s1")
    note f2 = api_method_frame[OF m2]
    from assms m1 Inr m2 have "s' = s2"
      by (auto simp: get_def Let_def split: sum.splits)
    with f1 f2 show ?thesis by (auto intro: untouched_trans)
  qed
qed

lemma get_ticket_token_frame:
  assumes "get_ticket_token E self s = (res, s')"
  shows "untouched s s' \<and> lookups (trace s') = lookups (trace s)"
proof -
  from assms obtain hs a where
    m: "api_method E self (cp ''get'') (cp ''https://support.funpay.com/tickets/new/1'')
          hs [] False s = (a, s')"
    by (auto simp: get_ticket_token_def Let_def split: prod.splits sum.splits)
  from api_method_frame[OF m] show ?thesis .
qed

lemma create_ticket_frame:
  assumes "create_ticket E self ord comment s = (res, s')"
  shows "untouched s s' \<and> lookups (trace s') = lookups (trace s)"
proof -
  obtain a s1 where t: "get_ticket_token E self s = (a, s1)"
    by (cases "get_ticket_token E self s")
  note f1 = get_ticket_token_frame[OF t]
  show ?thesis
  proof (cases a)
    case (Inl e)
    with assms t f1 show ?thesis by (simp add: create_ticket_def)
  next
    case (Inr tok)
    with assms t obtain hs pl b where
      m: "api_method E self (cp ''post'') (cp ''https://support.funpay.com/tickets/create/1'')
            hs pl False s1 = (b, s')"
      by (auto simp: create_ticket_def Let_def split: prod.splits sum.splits)
    from api_method_frame[OF m] f1 show ?thesis by (auto intro: untouched_trans)
  qed
qed

lemma report_try_frame:
  assumes "report_try E acc deal_id s = (res, s')"
  shows "untouched s s' \<and> lookups (trace s') = lookups (trace s) @ [deal_id]"
proof -
  obtain a s1 where od: "do_get_order E deal_id s = (a, s1)"
    by (cases "do_get_order E deal_id s")
  note f1 = do_get_order_frame[OF od]
  show ?thesis
  proof (cases "a = Inr PAID")
    case False
    with assms od have "s' = s1"
      by (cases a) (auto simp: report_try_def split: if_splits)
    with f1 show ?thesis by simp
  next
    case True
    obtain b s2 where g: "get E (FunPaySupportAPI acc) s1 = (b, s2)"
      by (cases "get E (FunPaySupportAPI acc) s1")
    note f2 = get_frame[OF g]
    show ?thesis
    proof (cases b)
      case (Inl e)
      with assms od True g have "s' = s2" by (simp add: report_try_def)
      with f1 f2 show ?thesis by (auto intro: untouched_trans)
    next
      case (Inr support)
      obtain c s3 where
        t: "create_ticket E support (Some deal_id) (comment_prefix @ deal_id @ cp ''.'') s2
            = (c, s3)"
        by (cases "create_ticket E support (Some deal_id)
                     (comment_prefix @ deal_id @ cp ''.'') s2")
      note f3 = create_ticket_frame[OF t]
      from assms od True g Inr t have "s' = s3"
        by (cases c) (simp_all add: report_try_def)
      with f1 f2 f3 show ?thesis by (auto intro: untouched_trans)
    qed
  qed
qed

lemma report_raw_frame:
  assumes "report_deal_problem_raw E acc deal_id s = (res, s')"
  shows "untouched s s' \<and> lookups (trace s') = lookups (trace s) @ [deal_id]
         \<and> (\<exists>b. res = Inr b)"
proof -
  obtain a s1 where t: "report_try E acc deal_id s = (a, s1)"
    by (cases "report_try E acc deal_id s")
  with assms have "s' = s1" "\<exists>b. res = Inr b"
    by (cases a; auto simp: report_deal_problem_raw_def)+
  with report_try_frame[OF t] show ?thesis by simp
qed

lemma report_loop_frame:
  "report_loop E acc i ids reported s = (res, s') \<Longrightarrow>
     untouched s s' \<and> lookups (trace s') = lookups (trace s) @ ids
     \<and> (\<exists>more. res = Inr (reported @ more) \<and> set more \<subseteq> set ids
           \<and> (distinct ids \<longrightarrow> distinct more))"
proof (induction ids arbitrary: i reported s)
  case Nil
  then show ?case by auto
next
  case (Cons deal_id rest)
  let ?s0 = "if 0 < i then do_sleep E 2 s else s"
  have u0: "untouched s ?s0" "lookups (trace ?s0) = lookups (trace s)" by simp_all
  obtain a s1 where r: "report_deal_problem_raw E acc deal_id ?s0 = (a, s1)"
    by (cases "report_deal_problem_raw E acc deal_id ?s0")
  from report_raw_frame[OF r] obtain success where
    f: "untouched ?s0 s1" "lookups (trace s1) = lookups (trace ?s0) @ [deal_id]"
    and a: "a = Inr success" by blast
  let ?rep = "if success then reported @ [deal_id] else reported"
  from Cons.prems r a have rec: "report_loop E acc (i + 1) rest ?rep s1 = (res, s')"
    by (simp add: Let_def)
  from Cons.IH[OF rec] obtain more where
    g: "untouched s1 s'" "lookups (trace s') = lookups (trace s1) @ rest"
    and m: "res = Inr (?rep @ more)" "set more \<subseteq> set rest" "distinct rest \<longrightarrow> distinct more"
    by blast
  let ?more = "if success then deal_id # more else more"
  have "res = Inr (reported @ ?more)" using m(1) by simp
  moreover have "set ?more \<subseteq> set (deal_id # rest)" using m(2) by auto
  moreover have "distinct (deal_id # rest) \<longrightarrow> distinct ?more" using m(2,3) by auto
  moreover have "untouched s s'" using u0(1) f(1) g(1) by (blast intro: untouched_trans)
  moreover have "lookups (trace s') = lookups (trace s) @ deal_id # rest"
    using u0(2) f(2) g(2) by simp
  ultimately show ?case by blast
qed

lemma report_deal_problems_frame:
  "report_deal_problems E acc ids s = (res, s') \<Longrightarrow>
     untouched s s' \<and> lookups (trace s') = lookups (trace s) @ ids
     \<and> (\<exists>reported. res = Inr reported \<and> set reported \<subseteq> set ids
           \<and> (distinct ids \<longrightarrow> distinct reported))"
  using report_loop_frame[of E acc 0 ids "[]" s res s']
  by (simp add: report_deal_problems_def)

text \<open>
  Claim C3, as amended. For every method and URL, the requests that the wrapper makes are
  a chain of at most 10 calls with \<open>allow_redirects=False\<close> that starts at the URL and
  goes on to the \<open>Location\<close> of each redirect (status 300 to 399); the chain ends at the
  first response that is no redirect, has no \<open>Location\<close> or has the root path as
  \<open>Location\<close>, which is returned, or at an exception. When all 10 calls were answered
  by redirects to follow, the wrapper makes one more call, of the original request to
  the original URL with \<open>allow_redirects\<close> not passed, and returns its outcome.
\<close>

theorem manual_redirect_following:
  assumes "api_method E self meth url headers payload excl s = (res, s')"
  shows "\<exists>calls. requests (trace s') = requests (trace s) @ calls \<and>
      (\<forall>c\<in>set calls. req_method (fst c) = meth \<and> req_data (fst c) = payload) \<and>
      (calls \<noteq> [] \<and> length calls \<le> 10 \<and> chain url calls \<and> snd (last calls) = res
         \<and> (\<forall>r. res = Inr r \<longrightarrow> stops r)
       \<or> (\<exists>manual final. calls = manual @ [final] \<and> length manual = 10 \<and> chain url manual
            \<and> (\<exists>r. snd (last manual) = Inr r \<and> \<not> stops r)
            \<and> fst final = (fst (hd manual))\<lparr>req_url := url, allow_redirects := None\<rparr>
            \<and> snd final = res))"
proof -
  obtain rq where rq: "req_method rq = meth" "req_data rq = payload" "req_url rq = url"
      "allow_redirects rq = None"
    and run: "(case follow E rq url 10 s of
           (Inl e, s1) \<Rightarrow> (Inl e, s1)
         | (Inr (Some r), s1) \<Rightarrow> (Inr r, s1)
         | (Inr None, s1) \<Rightarrow> do_request E rq s1) = (res, s')"
    using assms api_method_unfold[of meth payload url E self headers excl s] by auto
  obtain a s1 where f: "follow E rq url 10 s = (a, s1)" by (cases "follow E rq url 10 s")
  from follow_chain[OF f] obtain calls where
    tr: "requests (trace s1) = requests (trace s) @ calls" and ch: "chain url calls"
    and len: "length calls \<le> 10"
    and shape: "\<forall>c\<in>set calls. fst c = rq\<lparr>req_url := req_url (fst c), allow_redirects := Some False\<rparr>"
    and out: "(case a of
              Inl e \<Rightarrow> calls \<noteq> [] \<and> snd (last calls) = Inl e
            | Inr (Some r) \<Rightarrow> calls \<noteq> [] \<and> snd (last calls) = Inr r \<and> stops r
            | Inr None \<Rightarrow> length calls = 10
                \<and> (calls \<noteq> [] \<longrightarrow> (\<exists>r. snd (last calls) = Inr r \<and> \<not> stops r)))"
    by blast
  have same: "req_method (fst c) = meth \<and> req_data (fst c) = payload" if "c \<in> set calls" for c
  proof -
    from shape that
    have "fst c = rq\<lparr>req_url := req_url (fst c), allow_redirects := Some False\<rparr>" by blast
    then have "req_method (fst c) = req_method rq" "req_data (fst c) = req_data rq"
      by (metis http_request.select_convs(1) http_request.surjective
          http_request.update_convs(2) http_request.update_convs(6),
          metis http_request.select_convs(4) http_request.surjective
          http_request.update_convs(2) http_request.update_convs(6))
    with rq show ?thesis by simp
  qed
  show ?thesis
  proof (cases a)
    case (Inl e)
    with run f have "res = Inl e" "s' = s1" by simp_all
    with tr ch len out Inl same show ?thesis by (intro exI[of _ calls]) auto
  next
    case (Inr opt)
    show ?thesis
    proof (cases opt)
      case (Some r)
      with run f Inr have "res = Inr r" "s' = s1" by simp_all
      with tr ch len out Inr Some same show ?thesis by (intro exI[of _ calls]) auto
    next
      case None
      with run f Inr have d: "do_request E rq s1 = (res, s')" by simp
      from out Inr None have l10: "length calls = 10"
        and lastr: "\<exists>r. snd (last calls) = Inr r \<and> \<not> stops r" by auto
      from l10 have ne: "calls \<noteq> []" by auto
      then have "hd calls \<in> set calls" by simp
      with shape
      have "fst (hd calls) = rq\<lparr>req_url := req_url (fst (hd calls)), allow_redirects := Some False\<rparr>"
        by blast
      then have "(fst (hd calls))\<lparr>req_url := url, allow_redirects := None\<rparr>
          = rq\<lparr>req_url := url, allow_redirects := None\<rparr>"
        by (metis http_request.update_convs(2) http_request.update_convs(6)
            http_request.surjective)
      also have "\<dots> = rq" using rq by simp
      finally have fin: "rq = (fst (hd calls))\<lparr>req_url := url, allow_redirects := None\<rparr>"
        by simp
      let ?all = "calls @ [(rq, res)]"
      have "requests (trace s') = requests (trace s) @ ?all"
        using do_request_frame[OF d] tr by simp
      moreover have "\<forall>c\<in>set ?all. req_method (fst c) = meth \<and> req_data (fst c) = payload"
        using same rq by auto
      moreover have "\<exists>manual final. ?all = manual @ [final] \<and> length manual = 10
            \<and> chain url manual \<and> (\<exists>r. snd (last manual) = Inr r \<and> \<not> stops r)
            \<and> fst final = (fst (hd manual))\<lparr>req_url := url, allow_redirects := None\<rparr>
            \<and> snd final = res"
        using l10 ch lastr fin by (intro exI[of _ calls] exI[of _ "(rq, res)"]) simp
      ultimately show ?thesis by blast
    qed
  qed
qed

text \<open>
  The portal that redirects to \<open>/a\<close> and then to the root path: two calls, and the
  second redirect is returned, not followed.
\<close>

theorem manual_redirect_following_witness:
  "fst (api_method scripted api1 (cp ''get'') support_root [] [] False state_hops)
     = Inr (redirect_to (cp ''/''))
   \<and> map (\<lambda>c. req_url (fst c))
        (requests (trace (snd (api_method scripted api1 (cp ''get'') support_root [] []
                                 False state_hops))))
     = [support_root, cp ''/a'']
   \<and> (\<exists>calls. requests (trace (snd (api_method scripted api1 (cp ''get'') support_root [] []
                                 False state_hops)))
         = requests (trace state_hops) @ calls \<and> length calls \<le> 11)"
proof -
  let ?run = "api_method scripted api1 (cp ''get'') support_root [] [] False state_hops"
  have r: "fst ?run = Inr (redirect_to (cp ''/''))" by code_simp
  have u: "map (\<lambda>c. req_url (fst c)) (requests (trace (snd ?run))) = [support_root, cp ''/a'']"
    by code_simp
  have "?run = (fst ?run, snd ?run)" by simp
  from manual_redirect_following[OF this] obtain calls where
    "requests (trace (snd ?run)) = requests (trace state_hops) @ calls"
    and "calls \<noteq> [] \<and> length calls \<le> 10 \<and> chain support_root calls
           \<and> snd (last calls) = fst ?run \<and> (\<forall>r. fst ?run = Inr r \<longrightarrow> stops r)
         \<or> (\<exists>manual final. calls = manual @ [final] \<and> length manual = 10
               \<and> chain support_root manual
               \<and> (\<exists>r. snd (last manual) = Inr r \<and> \<not> stops r)
               \<and> fst final = (fst (hd manual))\<lparr>req_url := support_root, allow_redirects := None\<rparr>
               \<and> snd final = fst ?run)"
    by blast
  then have "\<exists>calls. requests (trace (snd ?run)) = requests (trace state_hops) @ calls
      \<and> length calls \<le> 11"
    by (intro exI[of _ calls]) auto
  with r u show ?thesis by simp
qed

text \<open>
  Claim C3 as stated fails in its last part: on the portal that redirects for ever, the
  eleventh call goes to the original URL and is one for which the library follows
  redirects.
\<close>

theorem fallback_follows_redirects:
  "length (requests (trace (snd (api_method scripted api1 (cp ''get'') support_root [] []
                                   False state_loop)))) = 11
   \<and> req_url (fst (last (requests (trace (snd (api_method scripted api1 (cp ''get'')
                                   support_root [] [] False state_loop)))))) = support_root
   \<and> follows_redirects (fst (last (requests (trace (snd (api_method scripted api1 (cp ''get'')
                                   support_root [] [] False state_loop))))))"
  by code_simp

text \<open>
  Claim C8. Whatever goes wrong for one order, in the status look-up, in the session
  bootstrap or in the submission, \<open>_report_deal_problem_raw\<close> returns (an exception
  of its body makes it return \<open>False\<close>), and \<open>report_deal_problems\<close> returns a list
  after having looked up every id of its input, in order.
\<close>

theorem failures_stay_per_order:
  "(\<exists>b. fst (report_deal_problem_raw E acc deal_id s) = Inr b)
   \<and> (fst (report_try E acc deal_id s) = Inl e
        \<longrightarrow> fst (report_deal_problem_raw E acc deal_id s) = Inr False)
   \<and> (\<exists>reported. fst (report_deal_problems E acc orders_ids s) = Inr reported)
   \<and> lookups (trace (snd (report_deal_problems E acc orders_ids s)))
       = lookups (trace s) @ orders_ids"
proof -
  have "report_deal_problem_raw E acc deal_id s
      = (fst (report_deal_problem_raw E acc deal_id s),
         snd (report_deal_problem_raw E acc deal_id s))" by simp
  from report_raw_frame[OF this]
  have 1: "\<exists>b. fst (report_deal_problem_raw E acc deal_id s) = Inr b" by simp
  have 2: "fst (report_try E acc deal_id s) = Inl e
      \<longrightarrow> fst (report_deal_problem_raw E acc deal_id s) = Inr False"
    by (cases "report_try E acc deal_id s") (auto simp: report_deal_problem_raw_def)
  have "report_deal_problems E acc orders_ids s
      = (fst (report_deal_problems E acc orders_ids s),
         snd (report_deal_problems E acc orders_ids s))" by simp
  from report_deal_problems_frame[OF this]
  have 3: "\<exists>reported. fst (report_deal_problems E acc orders_ids s) = Inr reported"
    and 4: "lookups (trace (snd (report_deal_problems E acc orders_ids s)))
       = lookups (trace s) @ orders_ids"
    by auto
  from 1 2 3 4 show ?thesis by blast
qed

text \<open>
  The order X is unknown to the marketplace, the portal answers the first request for B
  with a network error, and C goes through: the batch returns C alone, all three looked up.
\<close>

theorem failures_stay_per_order_witness:
  "fst (report_try scripted account1 (cp ''B'') state_raise) = Inl RequestException
   \<and> fst (report_deal_problem_raw scripted account1 (cp ''B'') state_raise) = Inr False
   \<and> fst (report_deal_problems scripted account1 [cp ''X'', cp ''B'', cp ''C''] state_raise)
       = Inr [cp ''C'']
   \<and> lookups (trace (snd (report_deal_problems scripted account1
                             [cp ''X'', cp ''B'', cp ''C''] state_raise)))
       = [cp ''X'', cp ''B'', cp ''C'']"
proof -
  have a: "fst (report_try scripted account1 (cp ''B'') state_raise) = Inl RequestException"
    by code_simp
  have b: "fst (report_deal_problems scripted account1 [cp ''X'', cp ''B'', cp ''C'']
                  state_raise) = Inr [cp ''C'']"
    by code_simp
  have c: "lookups (trace state_raise) = []" by code_simp
  from failures_stay_per_order[of scripted account1 "cp ''B''" state_raise RequestException
      "[cp ''X'', cp ''B'', cp ''C'']"] a b c
  show ?thesis by simp
qed


end
